theory Spec2Isabelle
  imports Complex_Main "HOL-Library.AList"
begin

section \<open>Values shared by the three components\<close>

text \<open>
  Every failure of the TypeScript sources is a thrown \<^verbatim>\<open>Error\<close> (or a rejected
  promise).  The model returns it as the left summand of a result.
\<close>

datatype error =
    Failure string
  | OptionsLengthMismatch nat nat
  | TypeError string
  | NotImplemented

text \<open>
  Values of TypeScript type \<^verbatim>\<open>any\<close> (MongoDB documents, metadata records, provider
  output) are JSON-like values.  An object keeps its keys in insertion order.
\<close>

datatype json =
    JNull
  | JBool bool
  | JNumber real
  | JString string
  | JArray "json list"
  | JObject "(string \<times> json) list"

type_synonym object = "(string \<times> json) list"

text \<open>JavaScript truthiness of a value, and of a possibly undefined value.\<close>

fun truthy :: "json \<Rightarrow> bool" where
  "truthy JNull = False"
| "truthy (JBool b) = b"
| "truthy (JNumber x) = (x \<noteq> 0)"
| "truthy (JString s) = (s \<noteq> [])"
| "truthy (JArray xs) = True"
| "truthy (JObject kvs) = True"

definition truthy_opt :: "json option \<Rightarrow> bool" where
  "truthy_opt v = (case v of None \<Rightarrow> False | Some x \<Rightarrow> truthy x)"

text \<open>
  Object spread \<^verbatim>\<open>{...target, ...source}\<close>: the properties of the source are assigned to
  the target in order; an existing key keeps its position and takes the new value.
\<close>

definition spread :: "object \<Rightarrow> object \<Rightarrow> object" where
  "spread target source = fold (\<lambda>(k, v). AList.update k v) source target"

text \<open>
  \<^verbatim>\<open>Array.prototype.map\<close> with a callback that may throw: the first exception aborts
  the traversal.
\<close>

fun map_throwing :: "('a \<Rightarrow> error + 'b) \<Rightarrow> 'a list \<Rightarrow> error + 'b list" where
  "map_throwing f [] = Inr []"
| "map_throwing f (x # xs) =
     (case f x of
        Inl e \<Rightarrow> Inl e
      | Inr y \<Rightarrow> (case map_throwing f xs of Inl e \<Rightarrow> Inl e | Inr ys \<Rightarrow> Inr (y # ys)))"

text \<open>
  \<^verbatim>\<open>Promise.all\<close> over promises that have all been started: it fulfils with the values
  in index order, or rejects.  When several promises reject, the reason that surfaces is
  the one rejected first; the model orders rejections by index.
\<close>

fun promise_all :: "(error + 'a) list \<Rightarrow> error + 'a list" where
  "promise_all [] = Inr []"
| "promise_all (Inl e # ps) = Inl e"
| "promise_all (Inr v # ps) =
     (case promise_all ps of Inl e \<Rightarrow> Inl e | Inr vs \<Rightarrow> Inr (v # vs))"

text \<open>Reading an array at an index: \<^verbatim>\<open>undefined\<close> out of range.\<close>

definition at_index :: "'a list \<Rightarrow> nat \<Rightarrow> 'a option" where
  "at_index xs i = (if i < length xs then Some (xs ! i) else None)"


section \<open>Runnable\<close>

text \<open>
  The \<^verbatim>\<open>options\<close> argument of \<^verbatim>\<open>batch\<close> is one shared configuration or an array of
  configurations; it may be absent.
\<close>

datatype 'o options_arg = Shared 'o | PerInput "'o list"

definition getOptionsList :: "'o options_arg \<Rightarrow> nat \<Rightarrow> error + 'o list" where
  "getOptionsList options len =
     (case options of
        PerInput os \<Rightarrow>
          if length os \<noteq> len then Inl (OptionsLengthMismatch (length os) len) else Inr os
      | Shared opt \<Rightarrow> Inr (replicate len opt))"

text \<open>
  \<^verbatim>\<open>batchOptions?.maxConcurrency && batchOptions.maxConcurrency > 0 ? ... : inputs.length\<close>.
  The concurrency bound is an integer when given.
\<close>

definition batchSize :: "int option \<Rightarrow> nat \<Rightarrow> nat" where
  "batchSize maxConcurrency len =
     (case maxConcurrency of
        None \<Rightarrow> len
      | Some mc \<Rightarrow> if mc \<noteq> 0 \<and> mc > 0 then nat mc else len)"

text \<open>
  One window of the loop of \<^verbatim>\<open>batch\<close>: the calls
  \<^verbatim>\<open>inputs.slice(i, i + batchSize).map((input, i) => this.invoke(input, configList[i]))\<close>,
  each as the pair of arguments handed to \<^verbatim>\<open>invoke\<close>.  The index of the callback is
  the position inside the slice.
\<close>

definition batchCalls :: "'i list \<Rightarrow> 'o list \<Rightarrow> nat \<Rightarrow> nat \<Rightarrow> ('i \<times> 'o option) list" where
  "batchCalls inputs configList bsize i =
     map (\<lambda>(k, input). (input, at_index configList k))
       (enumerate 0 (take bsize (drop i inputs)))"

text \<open>
  The loop \<^verbatim>\<open>for (let i = 0; i < inputs.length; i += batchSize)\<close>.  The result is the
  list of windows of calls that were started, and the outcome: the list of window
  results, or the error of the first window whose \<^verbatim>\<open>Promise.all\<close> rejected (later
  windows are then never started).
\<close>

function batch_loop ::
  "('i \<Rightarrow> 'o option \<Rightarrow> error + 'r) \<Rightarrow> 'i list \<Rightarrow> 'o list \<Rightarrow> int option \<Rightarrow> nat \<Rightarrow>
     ('i \<times> 'o option) list list \<times> (error + 'r list list)" where
  "batch_loop invoke inputs configList maxConcurrency i =
     (if i < length inputs then
        (case promise_all
                (map (\<lambda>(input, cfg). invoke input cfg)
                   (batchCalls inputs configList (batchSize maxConcurrency (length inputs)) i)) of
           Inl e \<Rightarrow>
             ([batchCalls inputs configList (batchSize maxConcurrency (length inputs)) i], Inl e)
         | Inr batchResult \<Rightarrow>
             (case batch_loop invoke inputs configList maxConcurrency
                     (i + batchSize maxConcurrency (length inputs)) of
                (calls, rest) \<Rightarrow>
                  (batchCalls inputs configList (batchSize maxConcurrency (length inputs)) i # calls,
                   case rest of Inl e \<Rightarrow> Inl e | Inr batchResults \<Rightarrow> Inr (batchResult # batchResults))))
      else ([], Inr []))"
  by pat_completeness auto
termination
proof (relation "measure (\<lambda>(invoke, inputs, configList, maxConcurrency, i). length inputs - i)")
  show "wf (measure (\<lambda>(invoke, inputs, configList, maxConcurrency, i). length inputs - i))"
    by simp
next
  fix invoke :: "'i \<Rightarrow> 'o option \<Rightarrow> error + 'r"
    and inputs :: "'i list" and configList :: "'o list"
    and maxConcurrency :: "int option" and i :: nat and batchResult :: "'r list"
  assume "i < length inputs"
  moreover from this have "0 < batchSize maxConcurrency (length inputs)"
    by (auto simp: batchSize_def split: option.splits)
  ultimately show
    "((invoke, inputs, configList, maxConcurrency, i + batchSize maxConcurrency (length inputs)),
      (invoke, inputs, configList, maxConcurrency, i))
     \<in> measure (\<lambda>(invoke, inputs, configList, maxConcurrency, i). length inputs - i)"
    by simp
qed

text \<open>
  \<^verbatim>\<open>batch(inputs, options, batchOptions)\<close>.  \<^verbatim>\<open>emptyOptions\<close> is the object \<^verbatim>\<open>{}\<close> that
  stands in for absent options.
\<close>

definition batch ::
  "('i \<Rightarrow> 'o option \<Rightarrow> error + 'r) \<Rightarrow> 'o \<Rightarrow> 'i list \<Rightarrow> 'o options_arg option \<Rightarrow> int option \<Rightarrow>
     ('i \<times> 'o option) list list \<times> (error + 'r list)" where
  "batch invoke emptyOptions inputs options maxConcurrency =
     (case getOptionsList (case options of None \<Rightarrow> Shared emptyOptions | Some x \<Rightarrow> x)
             (length inputs) of
        Inl e \<Rightarrow> ([], Inl e)
      | Inr configList \<Rightarrow>
          (case batch_loop invoke inputs configList maxConcurrency 0 of
             (calls, Inl e) \<Rightarrow> (calls, Inl e)
           | (calls, Inr batchResults) \<Rightarrow> (calls, Inr (concat batchResults))))"

declare batch_loop.simps [simp del]

text \<open>
  \<^verbatim>\<open>Runnable._streamIterator\<close>: \<^verbatim>\<open>yield this.invoke(input, options)\<close>.  A stream is
  observed as the elements it yielded and the way it ended.
\<close>

datatype completion = Completed | Raised error

definition Runnable_streamIterator ::
  "('i \<Rightarrow> 'o option \<Rightarrow> error + 'r) \<Rightarrow> 'i \<Rightarrow> 'o option \<Rightarrow> 'r list \<times> completion" where
  "Runnable_streamIterator invoke input options =
     (case invoke input options of
        Inr v \<Rightarrow> ([v], Completed)
      | Inl e \<Rightarrow> ([], Raised e))"


section \<open>MongoDBAtlasVectorSearch\<close>

record document =
  pageContent :: string
  metadata :: object

text \<open>
  The adapter with its collection.  The collection is the list of the records stored
  so far; \<^verbatim>\<open>insertMany\<close> appends to it.
\<close>

record vector_store =
  collection :: "object list"
  indexName :: string
  textKey :: string
  embeddingKey :: string

definition insertMany :: "vector_store \<Rightarrow> object list \<Rightarrow> vector_store" where
  "insertMany store docs = store\<lparr>collection := collection store @ docs\<rparr>"

text \<open>
  The object literal
  \<^verbatim>\<open>{ [this.textKey]: documents[idx].pageContent, [this.embeddingKey]: embedding, ...documents[idx].metadata }\<close>.
\<close>

definition vectorRecord :: "vector_store \<Rightarrow> real list \<Rightarrow> document \<Rightarrow> object" where
  "vectorRecord store embedding doc =
     spread
       (AList.update (embeddingKey store) (JArray (map JNumber embedding))
          (AList.update (textKey store) (JString (pageContent doc)) []))
       (metadata doc)"

text \<open>
  \<^verbatim>\<open>addVectors\<close>.  Reading \<^verbatim>\<open>documents[idx].pageContent\<close> past the end of
  \<^verbatim>\<open>documents\<close> dereferences \<^verbatim>\<open>undefined\<close> and throws a TypeError before anything is
  inserted.
\<close>

definition addVectors ::
  "vector_store \<Rightarrow> real list list \<Rightarrow> document list \<Rightarrow> (error + unit) \<times> vector_store" where
  "addVectors store vectors documents =
     (case map_throwing
             (\<lambda>(idx, embedding).
                case at_index documents idx of
                  None \<Rightarrow> Inl (TypeError ''Cannot read properties of undefined'')
                | Some doc \<Rightarrow> Inr (vectorRecord store embedding doc))
             (enumerate 0 vectors) of
        Inl e \<Rightarrow> (Inl e, store)
      | Inr docs \<Rightarrow> (Inr (), insertMany store docs))"

text \<open>
  The aggregation pipeline that \<^verbatim>\<open>similaritySearchVectorWithScore\<close> hands to
  \<^verbatim>\<open>collection.aggregate\<close>.  \<^verbatim>\<open>filter?.preFilter\<close> is the property of the filter when
  there is a filter and it has the property.  Spreading \<^verbatim>\<open>postFilterPipeline\<close> into
  \<^verbatim>\<open>push\<close> iterates it: an array gives its elements, a string its characters, any
  other truthy value is not iterable.
\<close>

definition property :: "object option \<Rightarrow> string \<Rightarrow> json option" where
  "property obj k = (case obj of None \<Rightarrow> None | Some kvs \<Rightarrow> map_of kvs k)"

definition searchPipeline ::
  "vector_store \<Rightarrow> real list \<Rightarrow> real \<Rightarrow> object option \<Rightarrow> error + json list" where
  "searchPipeline store query k flt =
     (let knnBeta0 =
            [(''vector'', JArray (map JNumber query)),
             (''path'', JString (embeddingKey store)),
             (''k'', JNumber k)];
          (preFilter, postFilterPipeline) =
            (if truthy_opt (property flt ''preFilter'')
                \<or> truthy_opt (property flt ''postFilterPipeline'')
             then (property flt ''preFilter'', property flt ''postFilterPipeline'')
             else (map_option JObject flt, None));
          knnBeta =
            (case preFilter of
               None \<Rightarrow> knnBeta0
             | Some f \<Rightarrow> if truthy f then AList.update ''filter'' f knnBeta0 else knnBeta0);
          pipeline =
            [JObject [(''$search'',
               JObject [(''index'', JString (indexName store)), (''knnBeta'', JObject knnBeta)])],
             JObject [(''$project'',
               JObject (AList.update ''score'' (JObject [(''$meta'', JString ''searchScore'')])
                          (AList.update (embeddingKey store) (JNumber 0) [])))]]
      in case postFilterPipeline of
           None \<Rightarrow> Inr pipeline
         | Some p \<Rightarrow>
             if truthy p then
               (case p of
                  JArray stages \<Rightarrow> Inr (pipeline @ stages)
                | JString s \<Rightarrow> Inr (pipeline @ map (\<lambda>c. JString [c]) s)
                | _ \<Rightarrow> Inl (TypeError ''postFilterPipeline is not iterable''))
             else Inr pipeline)"

text \<open>
  A filter that has the declared type \<^verbatim>\<open>MongoDBAtlasFilter\<close>: \<^verbatim>\<open>preFilter\<close>, when
  present, is a document and \<^verbatim>\<open>postFilterPipeline\<close>, when present, is an array of
  documents.
\<close>

definition is_document :: "json \<Rightarrow> bool" where
  "is_document v = (case v of JObject kvs \<Rightarrow> True | _ \<Rightarrow> False)"

definition well_typed_filter :: "object \<Rightarrow> bool" where
  "well_typed_filter flt =
     ((case map_of flt ''preFilter'' of None \<Rightarrow> True | Some v \<Rightarrow> is_document v) \<and>
      (case map_of flt ''postFilterPipeline'' of
         None \<Rightarrow> True
       | Some (JArray stages) \<Rightarrow> list_all is_document stages
       | Some _ \<Rightarrow> False))"


section \<open>BaseChatModel\<close>

subsection \<open>Messages, generations and call options\<close>

datatype role = HumanRole | AIRole | SystemRole

record base_message =
  role :: role
  content :: string

text \<open>
  A \<^verbatim>\<open>ChatGeneration\<close>; a \<^verbatim>\<open>ChatGenerationChunk\<close> is one too.
\<close>

record chat_generation =
  gen_text :: string
  message :: base_message
  generationInfo :: "string \<rightharpoonup> json"

record chat_result =
  generations :: "chat_generation list"
  llmOutput :: "object option"

record llm_result =
  lr_generations :: "chat_generation list list"
  lr_llmOutput :: "object option"
  runIds :: "nat list option"

text \<open>
  An abort signal is the caller's own or \<^verbatim>\<open>AbortSignal.timeout(ms)\<close>.
\<close>

datatype abort_signal = CallerSignal nat | TimeoutSignal nat

record call_options =
  callbacks :: "string list option"
  tags :: "string list option"
  co_metadata :: "object option"
  stop :: "string list option"
  timeout :: "nat option"
  signal :: "abort_signal option"
  promptIndex :: "nat option"

definition emptyCallOptions :: call_options where
  "emptyCallOptions =
     \<lparr>callbacks = None, tags = None, co_metadata = None, stop = None, timeout = None,
      signal = None, promptIndex = None\<rparr>"

record runnable_config =
  rc_callbacks :: "string list option"
  rc_tags :: "string list option"
  rc_metadata :: "object option"

text \<open>The second argument of \<^verbatim>\<open>generate\<close>: \<^verbatim>\<open>string[] | CallOptions\<close>.\<close>

datatype generate_options = StopWords "string list" | Options call_options

subsection \<open>The callback manager\<close>

record run_manager =
  runId :: nat

record start_extra =
  extra_options :: call_options
  invocation_params :: object

text \<open>
  The payload of an end notification: \<^verbatim>\<open>generations\<close> is a list of lists; an entry is
  \<^verbatim>\<open>undefined\<close> when a stream produced no chunk.
\<close>

record end_payload =
  end_generations :: "chat_generation option list list"
  end_llmOutput :: "object option"

datatype event =
    ChatModelStart nat "base_message list" start_extra
  | LLMEnd nat end_payload
  | LLMError nat error

record callback_manager =
  firstRunId :: nat

text \<open>
  Modelled from the spec: \<^verbatim>\<open>CallbackManager.handleChatModelStart\<close> of
  \<^verbatim>\<open>callbacks/manager.js\<close>, which is not among the sources.  The manager is notified
  that a chat-model run is starting for each input message-list, and one run-manager
  handle per message-list is returned; each handle has a run identifier of its own.
\<close>

definition handleChatModelStart ::
  "callback_manager \<Rightarrow> base_message list list \<Rightarrow> start_extra \<Rightarrow> run_manager list \<times> event list" where
  "handleChatModelStart manager messages extra =
     (map (\<lambda>(i, messageList). \<lparr>runId = firstRunId manager + i\<rparr>) (enumerate 0 messages),
      map (\<lambda>(i, messageList). ChatModelStart (firstRunId manager + i) messageList extra)
        (enumerate 0 messages))"

text \<open>
  Modelled from the spec: \<^verbatim>\<open>CallbackManagerForLLMRun.handleLLMEnd\<close> and
  \<^verbatim>\<open>handleLLMError\<close> of \<^verbatim>\<open>callbacks/manager.js\<close>, which is not among the sources.
  A handle reports success or failure for its own invocation: the notification is
  recorded with the handle's run identifier.
\<close>

definition handleLLMEnd :: "run_manager \<Rightarrow> end_payload \<Rightarrow> event list" where
  "handleLLMEnd runManager payload = [LLMEnd (runId runManager) payload]"

definition handleLLMError :: "run_manager \<Rightarrow> error \<Rightarrow> event list" where
  "handleLLMError runManager err = [LLMError (runId runManager) err]"

subsection \<open>The model and its abstract members\<close>

text \<open>
  What a concrete chat model supplies: the generation primitive \<^verbatim>\<open>_generate\<close>, the
  chunk producer \<^verbatim>\<open>_streamResponseChunks\<close> when it is overridden (the chunks produced
  and the error that ended the production, if any), the optional combiner
  \<^verbatim>\<open>_combineLLMOutput\<close>, \<^verbatim>\<open>invocationParams\<close>, the result of
  \<^verbatim>\<open>CallbackManager.configure\<close> for the call-level callbacks, tags and metadata (the
  instance-level ones are fixed by the model), and the messages of the prompt value of
  an input (\<^verbatim>\<open>_convertInputToPromptValue(input).toChatMessages()\<close>).
\<close>

record 'i chat_model =
  generate_primitive ::
    "base_message list \<Rightarrow> call_options \<Rightarrow> run_manager option \<Rightarrow> error + chat_result"
  streamResponseChunks ::
    "(base_message list \<Rightarrow> call_options \<Rightarrow> run_manager option \<Rightarrow>
        chat_generation list \<times> error option) option"
  combineLLMOutput :: "(object option list \<Rightarrow> object option) option"
  invocationParams :: "call_options \<Rightarrow> object"
  configure ::
    "string list option \<Rightarrow> string list option \<Rightarrow> object option \<Rightarrow> callback_manager option"
  toChatMessages :: "'i \<Rightarrow> base_message list"

subsection \<open>Splitting the options\<close>

text \<open>\<^verbatim>\<open>Runnable._separateRunnableConfigFromCallOptions\<close>.\<close>

definition Runnable_separateRunnableConfigFromCallOptions ::
  "call_options \<Rightarrow> runnable_config \<times> call_options" where
  "Runnable_separateRunnableConfigFromCallOptions options =
     (\<lparr>rc_callbacks = callbacks options, rc_tags = tags options,
       rc_metadata = co_metadata options\<rparr>,
      options\<lparr>callbacks := None, tags := None, co_metadata := None\<rparr>)"

text \<open>
  \<^verbatim>\<open>BaseChatModel._separateRunnableConfigFromCallOptions\<close>: a truthy timeout and no
  signal give a signal derived from the timeout, in the copy of the options.
\<close>

definition separateRunnableConfigFromCallOptions ::
  "call_options \<Rightarrow> runnable_config \<times> call_options" where
  "separateRunnableConfigFromCallOptions options =
     (case Runnable_separateRunnableConfigFromCallOptions options of
        (runnableConfig, callOptions) \<Rightarrow>
          (runnableConfig,
           case timeout callOptions of
             None \<Rightarrow> callOptions
           | Some t \<Rightarrow>
               if t \<noteq> 0 \<and> signal callOptions = None
               then callOptions\<lparr>signal := Some (TimeoutSignal t)\<rparr>
               else callOptions))"

subsection \<open>generate\<close>

text \<open>
  \<^verbatim>\<open>callbackManager_?.handleChatModelStart(...)\<close>: without a manager there are no
  handles and nothing is notified.
\<close>

definition startRuns ::
  "callback_manager option \<Rightarrow> base_message list list \<Rightarrow> start_extra \<Rightarrow>
     run_manager list option \<times> event list" where
  "startRuns manager messages extra =
     (case manager of
        None \<Rightarrow> (None, [])
      | Some m \<Rightarrow>
          (case handleChatModelStart m messages extra of
             (runManagers, events) \<Rightarrow> (Some runManagers, events)))"

text \<open>\<^verbatim>\<open>runManagers?.[i]\<close>.\<close>

definition runManagerAt :: "run_manager list option \<Rightarrow> nat \<Rightarrow> run_manager option" where
  "runManagerAt runManagers i =
     (case runManagers of None \<Rightarrow> None | Some hs \<Rightarrow> at_index hs i)"

text \<open>
  The arguments of the calls
  \<^verbatim>\<open>this._generate(messageList, { ...parsedOptions, promptIndex: i }, runManagers?.[i])\<close>.
\<close>

definition generateCalls ::
  "base_message list list \<Rightarrow> call_options \<Rightarrow> run_manager list option \<Rightarrow>
     (base_message list \<times> call_options \<times> run_manager option) list" where
  "generateCalls messages parsedOptions runManagers =
     map (\<lambda>(i, messageList).
            (messageList, parsedOptions\<lparr>promptIndex := Some i\<rparr>, runManagerAt runManagers i))
       (enumerate 0 messages)"

text \<open>
  The callback of \<^verbatim>\<open>results.map\<close>, for the settled result at index \<^verbatim>\<open>i\<close>: the
  notification it issues and the promise it leaves to \<^verbatim>\<open>Promise.all\<close>.
\<close>

definition handleResult ::
  "run_manager list option \<Rightarrow> nat \<times> (error + chat_result) \<Rightarrow> event list \<times> (error + chat_result)" where
  "handleResult runManagers ir =
     (case ir of
        (i, Inr result) \<Rightarrow>
          ((case runManagerAt runManagers i of
              None \<Rightarrow> []
            | Some runManager \<Rightarrow>
                handleLLMEnd runManager
                  \<lparr>end_generations = [map Some (generations result)],
                   end_llmOutput = llmOutput result\<rparr>),
           Inr result)
      | (i, Inl reason) \<Rightarrow>
          ((case runManagerAt runManagers i of
              None \<Rightarrow> []
            | Some runManager \<Rightarrow> handleLLMError runManager reason),
           Inl reason))"

text \<open>The steps of \<^verbatim>\<open>generate\<close>, in the order of the source.  First: parse call options.\<close>

definition parseOptions :: "generate_options option \<Rightarrow> call_options" where
  "parseOptions options =
     (case options of
        Some (StopWords ws) \<Rightarrow> emptyCallOptions\<lparr>stop := Some ws\<rparr>
      | Some (Options opts) \<Rightarrow> opts
      | None \<Rightarrow> emptyCallOptions)"

text \<open>Create the callback manager (\<^verbatim>\<open>callbackManager_\<close>) and start the run.\<close>

definition generateCallbackManager ::
  "'i chat_model \<Rightarrow> generate_options option \<Rightarrow> string list option \<Rightarrow> callback_manager option" where
  "generateCallbackManager model options callbacks_arg =
     (case separateRunnableConfigFromCallOptions (parseOptions options) of
        (runnableConfig, callOptions) \<Rightarrow>
          configure model
            (case rc_callbacks runnableConfig of None \<Rightarrow> callbacks_arg | Some c \<Rightarrow> Some c)
            (rc_tags runnableConfig) (rc_metadata runnableConfig))"

definition generateExtra :: "'i chat_model \<Rightarrow> generate_options option \<Rightarrow> start_extra" where
  "generateExtra model options =
     (case separateRunnableConfigFromCallOptions (parseOptions options) of
        (runnableConfig, callOptions) \<Rightarrow>
          \<lparr>extra_options = callOptions,
           invocation_params = invocationParams model (parseOptions options)\<rparr>)"

definition generateStart ::
  "'i chat_model \<Rightarrow> base_message list list \<Rightarrow> generate_options option \<Rightarrow> string list option \<Rightarrow>
     run_manager list option \<times> event list" where
  "generateStart model messages options callbacks_arg =
     startRuns (generateCallbackManager model options callbacks_arg) messages
       (generateExtra model options)"

text \<open>
  Generate results: \<^verbatim>\<open>Promise.allSettled\<close> over the calls of the primitive, one settled
  result per message-list.
\<close>

definition generateResults ::
  "'i chat_model \<Rightarrow> base_message list list \<Rightarrow> generate_options option \<Rightarrow> string list option \<Rightarrow>
     (error + chat_result) list" where
  "generateResults model messages options callbacks_arg =
     map (\<lambda>(messageList, opts, runManager).
            generate_primitive model messageList opts runManager)
       (generateCalls messages (parseOptions options)
          (fst (generateStart model messages options callbacks_arg)))"

text \<open>Handle results and create the combined output.\<close>

definition generate ::
  "'i chat_model \<Rightarrow> base_message list list \<Rightarrow> generate_options option \<Rightarrow> string list option \<Rightarrow>
     (error + llm_result) \<times> event list" where
  "generate model messages options callbacks_arg =
     (let (runManagers, started) = generateStart model messages options callbacks_arg;
          results = generateResults model messages options callbacks_arg;
          handled = map (handleResult runManagers) (enumerate 0 results);
          notified = concat (map fst handled)
      in case promise_all (map snd handled) of
           Inl reason \<Rightarrow> (Inl reason, started @ notified)
         | Inr chatResults \<Rightarrow>
             (Inr \<lparr>lr_generations = map generations chatResults,
                   lr_llmOutput =
                     (if chatResults \<noteq> []
                      then (case combineLLMOutput model of
                              None \<Rightarrow> None
                            | Some combine \<Rightarrow> combine (map llmOutput chatResults))
                      else None),
                   runIds = map_option (map runId) runManagers\<rparr>,
              started @ notified))"

definition generatePrompt ::
  "'i chat_model \<Rightarrow> base_message list list \<Rightarrow> generate_options option \<Rightarrow> string list option \<Rightarrow>
     (error + llm_result) \<times> event list" where
  "generatePrompt model promptValues options callbacks_arg =
     generate model promptValues options callbacks_arg"

subsection \<open>invoke and streaming\<close>

text \<open>
  \<^verbatim>\<open>invoke\<close>: \<^verbatim>\<open>result.generations[0][0].message\<close> dereferences \<^verbatim>\<open>undefined\<close> when
  the primitive returned no generation.
\<close>

definition invoke ::
  "'i chat_model \<Rightarrow> 'i \<Rightarrow> call_options option \<Rightarrow> (error + base_message) \<times> event list" where
  "invoke model input options =
     (case generatePrompt model [toChatMessages model input] (map_option Options options)
             (case options of None \<Rightarrow> None | Some opts \<Rightarrow> callbacks opts) of
        (Inl e, events) \<Rightarrow> (Inl e, events)
      | (Inr result, events) \<Rightarrow>
          (case lr_generations result of
             [] \<Rightarrow> (Inl (TypeError ''Cannot read properties of undefined''), events)
           | [] # _ \<Rightarrow> (Inl (TypeError ''Cannot read properties of undefined''), events)
           | (chatGeneration # _) # _ \<Rightarrow> (Inr (message chatGeneration), events)))"

text \<open>
  Modelled from the spec: \<^verbatim>\<open>ChatGenerationChunk.concat\<close> and the
  \<^verbatim>\<open>BaseMessageChunk.concat\<close> it uses, of \<^verbatim>\<open>schema/index.js\<close>, which is not among the
  sources.  Concatenation preserves order and merges the partial text and the partial
  metadata.
\<close>

definition message_concat :: "base_message \<Rightarrow> base_message \<Rightarrow> base_message" where
  "message_concat a b = a\<lparr>content := content a @ content b\<rparr>"

definition chunk_concat :: "chat_generation \<Rightarrow> chat_generation \<Rightarrow> chat_generation" where
  "chunk_concat a b =
     \<lparr>gen_text = gen_text a @ gen_text b,
      message = message_concat (message a) (message b),
      generationInfo = generationInfo a ++ generationInfo b\<rparr>"

text \<open>
  The accumulation in the loop of \<^verbatim>\<open>_streamIterator\<close>: the first chunk is kept, each
  later chunk is concatenated to the running chunk.
\<close>

definition accumulate :: "chat_generation option \<Rightarrow> chat_generation \<Rightarrow> chat_generation option" where
  "accumulate generationChunk chunk =
     (case generationChunk of
        None \<Rightarrow> Some chunk
      | Some g \<Rightarrow> Some (chunk_concat g chunk))"

definition combineChunks :: "chat_generation list \<Rightarrow> chat_generation option" where
  "combineChunks chunks = fold (\<lambda>chunk generationChunk. accumulate generationChunk chunk) chunks None"

record stream_run =
  yielded :: "base_message list"
  completion :: completion
  events :: "event list"

text \<open>
  \<^verbatim>\<open>BaseChatModel._streamIterator\<close>, consumed to its end.  Without an override of the
  chunk producer it yields the result of \<^verbatim>\<open>invoke\<close>; a rejected \<^verbatim>\<open>invoke\<close> is
  thrown by the \<^verbatim>\<open>yield\<close>.
\<close>

definition streamIterator :: "'i chat_model \<Rightarrow> 'i \<Rightarrow> call_options option \<Rightarrow> stream_run" where
  "streamIterator model input options =
     (case streamResponseChunks model of
        None \<Rightarrow>
          (case invoke model input options of
             (Inr v, evs) \<Rightarrow> \<lparr>yielded = [v], completion = Completed, events = evs\<rparr>
           | (Inl e, evs) \<Rightarrow> \<lparr>yielded = [], completion = Raised e, events = evs\<rparr>)
      | Some producer \<Rightarrow>
          (let messages = toChatMessages model input;
               (runnableConfig, callOptions) =
                 separateRunnableConfigFromCallOptions
                   (case options of None \<Rightarrow> emptyCallOptions | Some opts \<Rightarrow> opts);
               callbackManager =
                 configure model (rc_callbacks runnableConfig) (rc_tags runnableConfig)
                   (rc_metadata runnableConfig);
               extra =
                 \<lparr>extra_options = callOptions,
                  invocation_params = invocationParams model callOptions\<rparr>;
               (runManagers, started) = startRuns callbackManager [messages] extra;
               (chunks, failure) = producer messages callOptions (runManagerAt runManagers 0);
               generationChunk = combineChunks chunks;
               handles = (case runManagers of None \<Rightarrow> [] | Some hs \<Rightarrow> hs)
           in case failure of
                Some err \<Rightarrow>
                  \<lparr>yielded = map message chunks, completion = Raised err,
                   events = started @ concat (map (\<lambda>runManager. handleLLMError runManager err) handles)\<rparr>
              | None \<Rightarrow>
                  \<lparr>yielded = map message chunks, completion = Completed,
                   events =
                     started @
                     concat (map (\<lambda>runManager.
                                    handleLLMEnd runManager
                                      \<lparr>end_generations = [[generationChunk]], end_llmOutput = None\<rparr>)
                               handles)\<rparr>))"

text \<open>
  \<^verbatim>\<open>stream\<close> wraps the iterator in a readable stream that delivers the same sequence.
\<close>

definition stream :: "'i chat_model \<Rightarrow> 'i \<Rightarrow> call_options option \<Rightarrow> stream_run" where
  "stream model input options = streamIterator model input options"


section \<open>Notions used to state the properties\<close>

text \<open>Kinds of notification, and the notifications that close the run of a handle.\<close>

fun is_start :: "event \<Rightarrow> bool" where
  "is_start (ChatModelStart rid messageList extra) = True"
| "is_start _ = False"

fun is_end :: "event \<Rightarrow> bool" where
  "is_end (LLMEnd rid payload) = True"
| "is_end _ = False"

fun is_error :: "event \<Rightarrow> bool" where
  "is_error (LLMError rid err) = True"
| "is_error _ = False"

fun closes :: "nat \<Rightarrow> event \<Rightarrow> bool" where
  "closes rid (LLMEnd rid' payload) = (rid' = rid)"
| "closes rid (LLMError rid' err) = (rid' = rid)"
| "closes rid _ = False"

text \<open>The payload with which \<^verbatim>\<open>generate\<close> reports the result of one message-list.\<close>

definition endPayload :: "chat_result \<Rightarrow> end_payload" where
  "endPayload result =
     \<lparr>end_generations = [map Some (generations result)], end_llmOutput = llmOutput result\<rparr>"

text \<open>
  The specification's windows: the inputs split into consecutive windows of a given
  size.
\<close>

function windows :: "nat \<Rightarrow> 'a list \<Rightarrow> 'a list list" where
  "windows n xs = (if n = 0 \<or> xs = [] then [] else take n xs # windows n (drop n xs))"
  by pat_completeness auto
termination
  by (relation "measure (\<lambda>(n, xs). length xs)") auto

declare windows.simps [simp del]

text \<open>
  The specification's search request: a kNN stage with an optional pre-filter, the
  projection, then the stages of the post-filter pipeline.
\<close>

definition searchStages :: "vector_store \<Rightarrow> real list \<Rightarrow> real \<Rightarrow> json option \<Rightarrow> json list \<Rightarrow> json list" where
  "searchStages store query k preFilter postStages =
     [JObject [(''$search'',
        JObject [(''index'', JString (indexName store)),
                 (''knnBeta'',
                  JObject ([(''vector'', JArray (map JNumber query)),
                            (''path'', JString (embeddingKey store)),
                            (''k'', JNumber k)] @
                           (case preFilter of None \<Rightarrow> [] | Some f \<Rightarrow> [(''filter'', f)])))])],
      JObject [(''$project'',
        JObject (AList.update ''score'' (JObject [(''$meta'', JString ''searchScore'')])
                   (AList.update (embeddingKey store) (JNumber 0) [])))]] @ postStages"

text \<open>
  The notification that closes the run \<open>rid\<close> for a settled result: an end
  notification with the result, or an error notification with the reason.
\<close>

definition notification :: "nat \<Rightarrow> error + chat_result \<Rightarrow> event" where
  "notification rid settled =
     (case settled of
        Inr result \<Rightarrow> LLMEnd rid (endPayload result)
      | Inl reason \<Rightarrow> LLMError rid reason)"

text \<open>
  A model for probing a call: its primitive rejects an empty message-list and otherwise
  answers with one generation whose text tells whether the options it was given carry an
  abort signal.  \<open>manager\<close> is what \<^verbatim>\<open>CallbackManager.configure\<close> returns.
\<close>

definition probe_answer :: "call_options \<Rightarrow> chat_generation" where
  "probe_answer opts =
     \<lparr>gen_text = (case signal opts of None \<Rightarrow> ''no signal'' | Some s \<Rightarrow> ''signal''),
      message =
        \<lparr>role = AIRole,
         content = (case signal opts of None \<Rightarrow> ''no signal'' | Some s \<Rightarrow> ''signal'')\<rparr>,
      generationInfo = Map.empty\<rparr>"

definition probe_model :: "callback_manager option \<Rightarrow> string chat_model" where
  "probe_model manager =
     \<lparr>generate_primitive =
        (\<lambda>messageList opts runManager.
           if messageList = [] then Inl (Failure ''no messages'')
           else Inr \<lparr>generations = [probe_answer opts], llmOutput = None\<rparr>),
      streamResponseChunks = None,
      combineLLMOutput = None,
      invocationParams = (\<lambda>opts. []),
      configure = (\<lambda>cbs tgs md. manager),
      toChatMessages = (\<lambda>s. [\<lparr>role = HumanRole, content = s\<rparr>])\<rparr>"

text \<open>
  The same model with the chunk producer overridden: it produces one chunk, the answer to
  the options it was given.
\<close>

definition streaming_probe_model :: "callback_manager option \<Rightarrow> string chat_model" where
  "streaming_probe_model manager =
     (probe_model manager)
       \<lparr>streamResponseChunks :=
          Some (\<lambda>messageList opts runManager. ([probe_answer opts], None))\<rparr>"

text \<open>A store with the default index and keys, and nothing stored.\<close>

definition empty_store :: vector_store where
  "empty_store =
     \<lparr>collection = [], indexName = ''default'', textKey = ''text'',
      embeddingKey = ''embedding''\<rparr>"


section \<open>Promises\<close>


lemma promise_all_map_Inr: "promise_all (map Inr vs) = Inr vs"
  by (induction vs) auto

lemma promise_all_Inr_D: "promise_all ps = Inr vs \<Longrightarrow> ps = map Inr vs"
  by (induction ps arbitrary: vs rule: promise_all.induct) (auto split: sum.splits)

lemma promise_all_Inl_mem: "promise_all ps = Inl e \<Longrightarrow> Inl e \<in> set ps"
  by (induction ps rule: promise_all.induct) (auto split: sum.splits)

lemma promise_all_first_rejection:
  "i < length ps \<Longrightarrow> ps ! i = Inl e \<Longrightarrow> (\<forall>j<i. \<exists>v. ps ! j = Inr v) \<Longrightarrow> promise_all ps = Inl e"
proof (induction ps arbitrary: i rule: promise_all.induct)
  case 1
  then show ?case by simp
next
  case (2 e' ps)
  then show ?case by (cases i) auto
next
  case (3 v ps)
  show ?case
  proof (cases i)
    case 0
    with 3 show ?thesis by simp
  next
    case (Suc k)
    with 3 have "k < length ps" "ps ! k = Inl e" by simp_all
    moreover have "\<forall>j<k. \<exists>v. ps ! j = Inr v"
    proof (intro allI impI)
      fix j assume "j < k"
      then have "Suc j < i" using Suc by simp
      with 3(4) obtain w where "(Inr v # ps) ! Suc j = Inr w" by blast
      then show "\<exists>v. ps ! j = Inr v" by simp
    qed
    ultimately have "promise_all ps = Inl e" by (rule 3(1))
    then show ?thesis by simp
  qed
qed


section \<open>Properties of \<^verbatim>\<open>batch\<close>\<close>

lemma map_fst_batchCalls: "map fst (batchCalls inputs configList bsize i) = take bsize (drop i inputs)"
proof -
  have "map fst (batchCalls inputs configList bsize i)
          = map snd (enumerate 0 (take bsize (drop i inputs)))"
    by (simp add: batchCalls_def case_prod_unfold comp_def)
  then show ?thesis by simp
qed

lemma batchSize_pos: "i < len \<Longrightarrow> 0 < batchSize maxConcurrency len"
  by (auto simp: batchSize_def split: option.splits)

lemma windows_step:
  "i < length inputs \<Longrightarrow> 0 < n \<Longrightarrow>
     windows n (drop i inputs) = take n (drop i inputs) # windows n (drop (i + n) inputs)"
  by (subst windows.simps) (simp add: add.commute)

lemma windows_Nil: "windows n [] = []"
  by (subst windows.simps) simp

lemma concat_windows: "0 < n \<Longrightarrow> concat (windows n xs) = xs"
proof (induction n xs rule: windows.induct)
  case (1 n xs)
  show ?case
  proof (cases "xs = []")
    case True
    then show ?thesis by (subst windows.simps) simp
  next
    case False
    with 1 have "concat (windows n (drop n xs)) = drop n xs" by simp
    with False 1(2) show ?thesis by (subst windows.simps) simp
  qed
qed

lemma batch_loop_returns:
  "batch_loop call inputs configList maxConcurrency i = (calls, Inr batchResults) \<Longrightarrow>
     map (map fst) calls = windows (batchSize maxConcurrency (length inputs)) (drop i inputs)
     \<and> map (map Inr) batchResults = map (map (\<lambda>(input, cfg). call input cfg)) calls"
proof (induction call inputs configList maxConcurrency i arbitrary: calls batchResults
        rule: batch_loop.induct)
  case (1 call inputs configList maxConcurrency i)
  let ?n = "batchSize maxConcurrency (length inputs)"
  let ?w = "batchCalls inputs configList ?n i"
  show ?case
  proof (cases "i < length inputs")
    case False
    with "1.prems" show ?thesis
      by (simp add: batch_loop.simps windows_Nil)
  next
    case True
    then have pos: "0 < ?n" by (rule batchSize_pos)
    from "1.prems" True obtain batchResult calls' rest where
      pa: "promise_all (map (\<lambda>(input, cfg). call input cfg) ?w) = Inr batchResult"
      and rec: "batch_loop call inputs configList maxConcurrency (i + ?n) = (calls', Inr rest)"
      and calls: "calls = ?w # calls'" and res: "batchResults = batchResult # rest"
      by (subst (asm) batch_loop.simps) (auto split: sum.splits prod.splits)
    from "1.IH" [OF True pa rec]
    have ih: "map (map fst) calls' = windows ?n (drop (i + ?n) inputs)"
      "map (map Inr) rest = map (map (\<lambda>(input, cfg). call input cfg)) calls'"
      by simp_all
    from pa have "map (\<lambda>(input, cfg). call input cfg) ?w = map Inr batchResult"
      by (rule promise_all_Inr_D)
    with ih calls res show ?thesis
      by (simp add: windows_step [OF True pos] map_fst_batchCalls)
  qed
qed

lemma promise_all_total:
  "(\<And>p. p \<in> set ps \<Longrightarrow> \<exists>y. p = Inr y) \<Longrightarrow> \<exists>vs. promise_all ps = Inr vs"
proof (induction ps rule: promise_all.induct)
  case 1
  then show ?case by simp
next
  case (2 e ps)
  from 2 [of "Inl e"] show ?case by simp
next
  case (3 v ps)
  then obtain vs where "promise_all ps = Inr vs" by auto
  then show ?case by simp
qed

lemma batch_loop_total:
  "(\<forall>x c. \<exists>y. call x c = Inr y) \<Longrightarrow>
     \<exists>calls batchResults.
       batch_loop call inputs configList maxConcurrency i = (calls, Inr batchResults)"
proof (induction call inputs configList maxConcurrency i rule: batch_loop.induct)
  case (1 call inputs configList maxConcurrency i)
  let ?n = "batchSize maxConcurrency (length inputs)"
  let ?w = "batchCalls inputs configList ?n i"
  show ?case
  proof (cases "i < length inputs")
    case False
    then show ?thesis by (simp add: batch_loop.simps)
  next
    case True
    from "1.prems" have "\<exists>vs. promise_all (map (\<lambda>(input, cfg). call input cfg) ?w) = Inr vs"
      by (intro promise_all_total) auto
    then obtain vs where pa: "promise_all (map (\<lambda>(input, cfg). call input cfg) ?w) = Inr vs" ..
    from "1.IH" [OF True pa "1.prems"] obtain calls' rest where
      "batch_loop call inputs configList maxConcurrency (i + ?n) = (calls', Inr rest)" by blast
    with True pa show ?thesis
      by (subst batch_loop.simps) simp
  qed
qed

lemma batch_loop_rejects:
  "batch_loop call inputs configList maxConcurrency i = (calls, Inl e) \<Longrightarrow>
     calls \<noteq> []
     \<and> map (map fst) calls
         = take (length calls) (windows (batchSize maxConcurrency (length inputs)) (drop i inputs))
     \<and> (\<forall>w \<in> set (butlast calls). \<forall>(input, cfg) \<in> set w. \<exists>y. call input cfg = Inr y)
     \<and> (\<exists>(input, cfg) \<in> set (last calls). call input cfg = Inl e)"
proof (induction call inputs configList maxConcurrency i arbitrary: calls
        rule: batch_loop.induct)
  case (1 call inputs configList maxConcurrency i)
  let ?n = "batchSize maxConcurrency (length inputs)"
  let ?w = "batchCalls inputs configList ?n i"
  show ?case
  proof (cases "i < length inputs")
    case False
    with "1.prems" show ?thesis by (simp add: batch_loop.simps)
  next
    case True
    then have pos: "0 < ?n" by (rule batchSize_pos)
    show ?thesis
    proof (cases "promise_all (map (\<lambda>(input, cfg). call input cfg) ?w)")
      case (Inl e')
      with "1.prems" True have calls: "calls = [?w]" and e: "e' = e"
        by (subst (asm) batch_loop.simps, simp)+
      from Inl e have "Inl e \<in> set (map (\<lambda>(input, cfg). call input cfg) ?w)"
        by (auto dest: promise_all_Inl_mem)
      then have "\<exists>(input, cfg) \<in> set ?w. call input cfg = Inl e" by force
      with calls show ?thesis
        by (simp add: windows_step [OF True pos] map_fst_batchCalls)
    next
      case (Inr batchResult)
      with "1.prems" True obtain calls' where
        rec: "batch_loop call inputs configList maxConcurrency (i + ?n) = (calls', Inl e)"
        and calls: "calls = ?w # calls'"
        by (subst (asm) batch_loop.simps) (auto split: sum.splits prod.splits)
      from "1.IH" [OF True Inr rec]
      have ih: "calls' \<noteq> []"
        "map (map fst) calls' = take (length calls') (windows ?n (drop (i + ?n) inputs))"
        "\<forall>w \<in> set (butlast calls'). \<forall>(input, cfg) \<in> set w. \<exists>y. call input cfg = Inr y"
        "\<exists>(input, cfg) \<in> set (last calls'). call input cfg = Inl e"
        by simp_all
      from Inr have ok: "map (\<lambda>(input, cfg). call input cfg) ?w = map Inr batchResult"
        by (rule promise_all_Inr_D)
      have "\<forall>(input, cfg) \<in> set ?w. \<exists>y. call input cfg = Inr y"
      proof (clarify)
        fix input cfg assume "(input, cfg) \<in> set ?w"
        then have "call input cfg \<in> set (map (\<lambda>(input, cfg). call input cfg) ?w)" by force
        with ok show "\<exists>y. call input cfg = Inr y" by auto
      qed
      with ih calls show ?thesis
        by (simp add: windows_step [OF True pos] map_fst_batchCalls)
    qed
  qed
qed

lemma windows_whole: "xs \<noteq> [] \<Longrightarrow> windows (length xs) xs = [xs]"
  by (subst windows.simps) (simp add: windows_Nil)

lemma concat_windows_batchSize:
  "concat (windows (batchSize maxConcurrency (length xs)) xs) = xs"
proof (cases "xs = []")
  case True
  then show ?thesis by (simp add: windows_Nil)
next
  case False
  then have "0 < batchSize maxConcurrency (length xs)"
    by (intro batchSize_pos [of 0]) simp
  then show ?thesis by (rule concat_windows)
qed

lemma batch_returns:
  assumes "batch call emptyOptions inputs options maxConcurrency = (calls, Inr outputs)"
  shows "map (map fst) calls = windows (batchSize maxConcurrency (length inputs)) inputs"
    and "map fst (concat calls) = inputs"
    and "map Inr outputs = map (\<lambda>(input, cfg). call input cfg) (concat calls)"
proof -
  from assms obtain configList batchResults where
    loop: "batch_loop call inputs configList maxConcurrency 0 = (calls, Inr batchResults)"
    and out: "outputs = concat batchResults"
    by (auto simp: batch_def split: sum.splits prod.splits)
  from batch_loop_returns [OF loop]
  have w: "map (map fst) calls = windows (batchSize maxConcurrency (length inputs)) inputs"
    and r: "map (map Inr) batchResults = map (map (\<lambda>(input, cfg). call input cfg)) calls"
    by simp_all
  show "map (map fst) calls = windows (batchSize maxConcurrency (length inputs)) inputs"
    by (rule w)
  have "map fst (concat calls) = concat (map (map fst) calls)"
    by (simp add: map_concat)
  with w show "map fst (concat calls) = inputs"
    by (simp add: concat_windows_batchSize)
  have "map Inr outputs = concat (map (map Inr) batchResults)"
    by (simp add: out map_concat)
  also have "\<dots> = map (\<lambda>(input, cfg). call input cfg) (concat calls)"
    by (simp add: r map_concat)
  finally show "map Inr outputs = map (\<lambda>(input, cfg). call input cfg) (concat calls)" .
qed

text \<open>
  C5.  \<^verbatim>\<open>batch\<close> processes the inputs in consecutive windows of the batch size (one
  window holding all inputs when no bound is given) and a window is started only when
  every invocation of the windows before it has succeeded: when the call fails, the
  windows started are an initial segment of the windows, all invocations of the windows
  before the last succeeded and the error is the one of an invocation of the last.  When
  the call returns, the output list has the length of the inputs, the invocations made are
  those of the inputs in input order, and output \<open>j\<close> is the result of the invocation
  made for input \<open>j\<close>.  The call does return when every invocation succeeds and the
  options, if an array, have the length of the inputs.
\<close>

theorem batch_windows_preserve_order:
  "(\<forall>calls outputs.
      batch call emptyOptions inputs options maxConcurrency = (calls, Inr outputs) \<longrightarrow>
        map (map fst) calls = windows (batchSize maxConcurrency (length inputs)) inputs
      \<and> (maxConcurrency = None \<and> inputs \<noteq> [] \<longrightarrow> map (map fst) calls = [inputs])
      \<and> length outputs = length inputs
      \<and> (\<forall>j<length inputs.
            fst (concat calls ! j) = inputs ! j
          \<and> call (inputs ! j) (snd (concat calls ! j)) = Inr (outputs ! j)))
   \<and> (\<forall>calls e configList.
        batch call emptyOptions inputs options maxConcurrency = (calls, Inl e)
        \<and> getOptionsList (case options of None \<Rightarrow> Shared emptyOptions | Some x \<Rightarrow> x)
             (length inputs) = Inr configList \<longrightarrow>
          calls \<noteq> []
        \<and> map (map fst) calls
            = take (length calls) (windows (batchSize maxConcurrency (length inputs)) inputs)
        \<and> (\<forall>w \<in> set (butlast calls). \<forall>(input, cfg) \<in> set w. \<exists>y. call input cfg = Inr y)
        \<and> (\<exists>(input, cfg) \<in> set (last calls). call input cfg = Inl e))
   \<and> ((\<forall>x c. \<exists>y. call x c = Inr y)
        \<and> (\<forall>os. options = Some (PerInput os) \<longrightarrow> length os = length inputs) \<longrightarrow>
          (\<exists>calls outputs.
             batch call emptyOptions inputs options maxConcurrency = (calls, Inr outputs)))"
proof (intro conjI allI impI)
  fix calls outputs
  assume b: "batch call emptyOptions inputs options maxConcurrency = (calls, Inr outputs)"
  note r = batch_returns [OF b]
  show w: "map (map fst) calls = windows (batchSize maxConcurrency (length inputs)) inputs"
    by (rule r(1))
  have len: "length (concat calls) = length inputs"
    using r(2) by (metis length_map)
  from r(3) have "length outputs = length (concat calls)"
    by (metis length_map)
  with len show "length outputs = length inputs" by simp
  {
    assume "maxConcurrency = None \<and> inputs \<noteq> []"
    with w show "map (map fst) calls = [inputs]"
      by (simp add: batchSize_def windows_whole)
  }
  {
    fix j assume j: "j < length inputs"
    with len have jc: "j < length (concat calls)" by simp
    from r(2) have "map fst (concat calls) ! j = inputs ! j" by simp
    with jc show "fst (concat calls ! j) = inputs ! j" by simp
    from r(3) have "map Inr outputs ! j = map (\<lambda>(input, cfg). call input cfg) (concat calls) ! j"
      by simp
    with jc \<open>length outputs = length (concat calls)\<close>
    have "Inr (outputs ! j) = (case concat calls ! j of (input, cfg) \<Rightarrow> call input cfg)"
      by simp
    with \<open>fst (concat calls ! j) = inputs ! j\<close>
    show "call (inputs ! j) (snd (concat calls ! j)) = Inr (outputs ! j)"
      by (simp add: case_prod_unfold)
  }
next
  fix calls e configList
  assume a: "batch call emptyOptions inputs options maxConcurrency = (calls, Inl e)
        \<and> getOptionsList (case options of None \<Rightarrow> Shared emptyOptions | Some x \<Rightarrow> x)
             (length inputs) = Inr configList"
  then have loop: "batch_loop call inputs configList maxConcurrency 0 = (calls, Inl e)"
    by (auto simp: batch_def split: sum.splits prod.splits)
  from batch_loop_rejects [OF loop]
  show "calls \<noteq> []"
    and "map (map fst) calls
            = take (length calls) (windows (batchSize maxConcurrency (length inputs)) inputs)"
    and "\<forall>w \<in> set (butlast calls). \<forall>(input, cfg) \<in> set w. \<exists>y. call input cfg = Inr y"
    and "\<exists>(input, cfg) \<in> set (last calls). call input cfg = Inl e"
    by simp_all
next
  assume a: "(\<forall>x c. \<exists>y. call x c = Inr y)
        \<and> (\<forall>os. options = Some (PerInput os) \<longrightarrow> length os = length inputs)"
  then have "\<exists>configList.
      getOptionsList (case options of None \<Rightarrow> Shared emptyOptions | Some x \<Rightarrow> x)
        (length inputs) = Inr configList"
    by (cases options; cases "the options") (simp_all add: getOptionsList_def)
  then obtain configList where
    cl: "getOptionsList (case options of None \<Rightarrow> Shared emptyOptions | Some x \<Rightarrow> x)
           (length inputs) = Inr configList" ..
  from a batch_loop_total [of call inputs configList maxConcurrency 0]
  obtain calls batchResults where
    "batch_loop call inputs configList maxConcurrency 0 = (calls, Inr batchResults)" by blast
  with cl show "\<exists>calls outputs.
             batch call emptyOptions inputs options maxConcurrency = (calls, Inr outputs)"
    by (simp add: batch_def)
qed

theorem batch_windows_preserve_order_witness:
  "batch (\<lambda>x c. Inr (x + 1)) (0::nat) [1::nat, 2, 3] None (Some 2)
     = ([[(1, Some 0), (2, Some 0)], [(3, Some 0)]], Inr [2, 3, 4])
   \<and> windows (batchSize (Some 2) (length [1::nat, 2, 3])) [1::nat, 2, 3] = [[1, 2], [3]]
   \<and> batch (\<lambda>x c. if x = (0::nat) then Inl NotImplemented else Inr (x + 1)) (0::nat)
       [1, 0, 3] None (Some 1)
     = ([[(1, Some 0)], [(0, Some 0)]], Inl NotImplemented)
   \<and> getOptionsList (Shared (0::nat)) (length [1::nat, 0, 3]) = Inr [0, 0, 0]"
  using batch_windows_preserve_order
      [of "\<lambda>x c. Inr (x + 1)" "0::nat" "[1, 2, 3]" None "Some 2"]
    batch_windows_preserve_order
      [of "\<lambda>x c. if x = (0::nat) then Inl NotImplemented else Inr (x + 1)" "0::nat"
          "[1, 0, 3]" None "Some 1"]
  by (simp add: batch_def getOptionsList_def batch_loop.simps batchCalls_def batchSize_def
      at_index_def windows.simps numeral_3_eq_3)

text \<open>
  C4.  The options of an invocation are read at the position inside the window, not at
  the position in \<^verbatim>\<open>inputs\<close>: with two inputs, two options and windows of one
  input, the second input is invoked with the first options.
\<close>

theorem batch_options_read_at_window_position:
  "fst (batch (\<lambda>x c. Inr (x, c)) [] [''a'', ''b''] (Some (PerInput [''o0'', ''o1''])) (Some 1))
     = [[(''a'', Some ''o0'')], [(''b'', Some ''o0'')]]"
  by (simp add: batch_def getOptionsList_def batch_loop.simps batchCalls_def batchSize_def
      at_index_def)


section \<open>Properties of streaming\<close>

text \<open>
  C6.  Chunk combination is associative: folding three chunks one at a time gives the
  same combined generation as combining the first two and then the third, and as
  combining the first with the combination of the last two; the content of the final
  message is the three contents in order.
\<close>

theorem chunk_combination_associative:
  "combineChunks [c1, c2, c3] = combineChunks [chunk_concat c1 c2, c3]
   \<and> combineChunks [c1, c2, c3] = combineChunks [c1, chunk_concat c2 c3]
   \<and> combineChunks [c1, c2, c3] = Some (chunk_concat (chunk_concat c1 c2) c3)
   \<and> chunk_concat (chunk_concat c1 c2) c3 = chunk_concat c1 (chunk_concat c2 c3)
   \<and> content (message (chunk_concat (chunk_concat c1 c2) c3))
       = content (message c1) @ content (message c2) @ content (message c3)"
  by (simp add: combineChunks_def accumulate_def chunk_concat_def message_concat_def)

text \<open>
  C7.  On a chat model that has not overridden the chunk producer, \<^verbatim>\<open>stream\<close> is the
  iterator that yields the result of \<^verbatim>\<open>invoke\<close> on the same input and options: a
  sequence of exactly one element, that result, when \<^verbatim>\<open>invoke\<close> returns one (when
  \<^verbatim>\<open>invoke\<close> is rejected, the \<^verbatim>\<open>yield\<close> throws its error).  The notifications of
  the stream are those of the \<^verbatim>\<open>invoke\<close> path and no others, and the iterator agrees
  with the default one of \<^verbatim>\<open>Runnable\<close>.
\<close>

theorem stream_without_override_is_invoke:
  assumes "streamResponseChunks model = None"
  shows "(\<forall>v evs. invoke model input options = (Inr v, evs) \<longrightarrow>
            stream model input options = \<lparr>yielded = [v], completion = Completed, events = evs\<rparr>)
       \<and> (\<forall>e evs. invoke model input options = (Inl e, evs) \<longrightarrow>
            stream model input options = \<lparr>yielded = [], completion = Raised e, events = evs\<rparr>)
       \<and> Runnable_streamIterator (\<lambda>i opts. fst (invoke model i opts)) input options
           = (yielded (stream model input options), completion (stream model input options))
       \<and> events (stream model input options) = snd (invoke model input options)"
  using assms
  by (auto simp: stream_def streamIterator_def Runnable_streamIterator_def split: sum.splits prod.splits)

lemmas probe_unfold =
  generate_def generateStart_def generateResults_def
  generateCallbackManager_def generateExtra_def parseOptions_def probe_model_def probe_answer_def
  separateRunnableConfigFromCallOptions_def Runnable_separateRunnableConfigFromCallOptions_def
  startRuns_def handleChatModelStart_def generateCalls_def runManagerAt_def at_index_def
  handleResult_def handleLLMEnd_def handleLLMError_def emptyCallOptions_def endPayload_def

lemma probe_generate_two:
  "generate (probe_model (Some \<lparr>firstRunId = 7\<rparr>))
     [[\<lparr>role = HumanRole, content = ''hi''\<rparr>], [\<lparr>role = HumanRole, content = ''yo''\<rparr>]] None None
   = (Inr \<lparr>lr_generations = [[probe_answer emptyCallOptions], [probe_answer emptyCallOptions]],
           lr_llmOutput = None, runIds = Some [7, 8]\<rparr>,
      [ChatModelStart 7 [\<lparr>role = HumanRole, content = ''hi''\<rparr>]
         \<lparr>extra_options = emptyCallOptions, invocation_params = []\<rparr>,
       ChatModelStart 8 [\<lparr>role = HumanRole, content = ''yo''\<rparr>]
         \<lparr>extra_options = emptyCallOptions, invocation_params = []\<rparr>,
       LLMEnd 7 \<lparr>end_generations = [[Some (probe_answer emptyCallOptions)]], end_llmOutput = None\<rparr>,
       LLMEnd 8 \<lparr>end_generations = [[Some (probe_answer emptyCallOptions)]], end_llmOutput = None\<rparr>])"
  by (simp add: probe_unfold)

lemma probe_generate_failing:
  "generate (probe_model (Some \<lparr>firstRunId = 7\<rparr>))
     [[\<lparr>role = HumanRole, content = ''hi''\<rparr>], [], [\<lparr>role = HumanRole, content = ''yo''\<rparr>]] None None
   = (Inl (Failure ''no messages''),
      [ChatModelStart 7 [\<lparr>role = HumanRole, content = ''hi''\<rparr>]
         \<lparr>extra_options = emptyCallOptions, invocation_params = []\<rparr>,
       ChatModelStart 8 []
         \<lparr>extra_options = emptyCallOptions, invocation_params = []\<rparr>,
       ChatModelStart 9 [\<lparr>role = HumanRole, content = ''yo''\<rparr>]
         \<lparr>extra_options = emptyCallOptions, invocation_params = []\<rparr>,
       LLMEnd 7 \<lparr>end_generations = [[Some (probe_answer emptyCallOptions)]], end_llmOutput = None\<rparr>,
       LLMError 8 (Failure ''no messages''),
       LLMEnd 9 \<lparr>end_generations = [[Some (probe_answer emptyCallOptions)]], end_llmOutput = None\<rparr>])"
  by (simp add: probe_unfold)

theorem stream_without_override_is_invoke_witness:
  "streamResponseChunks (probe_model (Some \<lparr>firstRunId = 7\<rparr>)) = None
   \<and> invoke (probe_model (Some \<lparr>firstRunId = 7\<rparr>)) ''hi'' None
     = (Inr \<lparr>role = AIRole, content = ''no signal''\<rparr>,
        [ChatModelStart 7 [\<lparr>role = HumanRole, content = ''hi''\<rparr>]
           \<lparr>extra_options = emptyCallOptions, invocation_params = []\<rparr>,
         LLMEnd 7 \<lparr>end_generations = [[Some (probe_answer emptyCallOptions)]], end_llmOutput = None\<rparr>])
   \<and> stream (probe_model (Some \<lparr>firstRunId = 7\<rparr>)) ''hi'' None
     = \<lparr>yielded = [\<lparr>role = AIRole, content = ''no signal''\<rparr>], completion = Completed,
        events =
          [ChatModelStart 7 [\<lparr>role = HumanRole, content = ''hi''\<rparr>]
             \<lparr>extra_options = emptyCallOptions, invocation_params = []\<rparr>,
           LLMEnd 7 \<lparr>end_generations = [[Some (probe_answer emptyCallOptions)]], end_llmOutput = None\<rparr>]\<rparr>"
proof -
  have h: "streamResponseChunks (probe_model (Some \<lparr>firstRunId = 7\<rparr>)) = None"
    by (simp add: probe_model_def)
  have i: "invoke (probe_model (Some \<lparr>firstRunId = 7\<rparr>)) ''hi'' None
     = (Inr \<lparr>role = AIRole, content = ''no signal''\<rparr>,
        [ChatModelStart 7 [\<lparr>role = HumanRole, content = ''hi''\<rparr>]
           \<lparr>extra_options = emptyCallOptions, invocation_params = []\<rparr>,
         LLMEnd 7 \<lparr>end_generations = [[Some (probe_answer emptyCallOptions)]], end_llmOutput = None\<rparr>])"
    by (simp add: invoke_def generatePrompt_def probe_unfold)
  show ?thesis
    using stream_without_override_is_invoke [OF h, of "''hi''" None] h i
    by simp
qed


section \<open>Properties of \<^verbatim>\<open>generate\<close>\<close>

lemma map_enumerate_upt:
  "map (\<lambda>(i, x). g i x) (enumerate 0 xs) = map (\<lambda>i. g i (xs ! i)) [0..<length xs]"
  by (rule nth_equalityI) (simp_all add: nth_enumerate_eq)

lemma handleChatModelStart_upt:
  "handleChatModelStart manager messages extra
     = (map (\<lambda>i. \<lparr>runId = firstRunId manager + i\<rparr>) [0..<length messages],
        map (\<lambda>i. ChatModelStart (firstRunId manager + i) (messages ! i) extra)
          [0..<length messages])"
  unfolding handleChatModelStart_def by (simp add: map_enumerate_upt)

lemma generateStart_without_manager:
  "generateCallbackManager model options cb = None \<Longrightarrow>
     generateStart model messages options cb = (None, [])"
  by (simp add: generateStart_def startRuns_def)

lemma generateStart_with_manager:
  "generateCallbackManager model options cb = Some manager \<Longrightarrow>
     generateStart model messages options cb
       = (Some (map (\<lambda>i. \<lparr>runId = firstRunId manager + i\<rparr>) [0..<length messages]),
          map (\<lambda>i. ChatModelStart (firstRunId manager + i) (messages ! i)
                      (generateExtra model options))
            [0..<length messages])"
  by (simp add: generateStart_def startRuns_def handleChatModelStart_upt)

lemma length_generateResults:
  "length (generateResults model messages options cb) = length messages"
  by (simp add: generateResults_def generateCalls_def)

lemma snd_handleResult: "snd \<circ> handleResult runManagers = snd"
proof
  fix ir :: "nat \<times> (error + chat_result)"
  show "(snd \<circ> handleResult runManagers) ir = snd ir"
    by (cases ir; cases "snd ir") (simp_all add: handleResult_def)
qed

lemma fst_handleResult_none: "fst \<circ> handleResult None = (\<lambda>ir. [])"
proof
  fix ir :: "nat \<times> (error + chat_result)"
  show "(fst \<circ> handleResult None) ir = []"
    by (cases ir; cases "snd ir") (simp_all add: handleResult_def runManagerAt_def)
qed

lemma fst_handleResult_some:
  "i < n \<Longrightarrow>
     fst (handleResult (Some (map (\<lambda>i. \<lparr>runId = b + i\<rparr>) [0..<n])) (i, r))
       = [notification (b + i) r]"
  by (cases r)
    (simp_all add: handleResult_def runManagerAt_def at_index_def notification_def
      handleLLMEnd_def handleLLMError_def endPayload_def)

lemma notified_with_manager:
  "concat (map (fst \<circ> handleResult (Some (map (\<lambda>i. \<lparr>runId = b + i\<rparr>) [0..<length results])))
             (enumerate 0 results))
     = map (\<lambda>i. notification (b + i) (results ! i)) [0..<length results]"
proof -
  let ?hs = "Some (map (\<lambda>i. \<lparr>runId = b + i\<rparr>) [0..<length results])"
  have "map (fst \<circ> handleResult ?hs) (enumerate 0 results)
          = map (\<lambda>i. [notification (b + i) (results ! i)]) [0..<length results]"
    by (rule nth_equalityI) (simp_all add: nth_enumerate_eq fst_handleResult_some)
  then show ?thesis
    by (simp add: concat_map_singleton)
qed

lemma generate_unfold:
  "generate model messages options cb
     = (case promise_all (generateResults model messages options cb) of
          Inl reason \<Rightarrow> Inl reason
        | Inr chatResults \<Rightarrow>
            Inr \<lparr>lr_generations = map generations chatResults,
                 lr_llmOutput =
                   (if chatResults \<noteq> []
                    then (case combineLLMOutput model of
                            None \<Rightarrow> None
                          | Some combine \<Rightarrow> combine (map llmOutput chatResults))
                    else None),
                 runIds = map_option (map runId) (fst (generateStart model messages options cb))\<rparr>,
        snd (generateStart model messages options cb)
        @ concat (map (fst \<circ> handleResult (fst (generateStart model messages options cb)))
                    (enumerate 0 (generateResults model messages options cb))))"
  by (simp add: generate_def Let_def case_prod_unfold snd_handleResult split: sum.splits)

lemma generate_without_manager:
  assumes "generateCallbackManager model options cb = None"
  shows "snd (generate model messages options cb) = []"
  using generateStart_without_manager [OF assms, of messages]
  by (simp add: generate_unfold fst_handleResult_none)

lemma snd_generate_with_manager:
  assumes "generateCallbackManager model options cb = Some manager"
  shows "snd (generate model messages options cb)
     = map (\<lambda>i. ChatModelStart (firstRunId manager + i) (messages ! i)
                      (generateExtra model options)) [0..<length messages]
       @ map (\<lambda>i. notification (firstRunId manager + i)
                     (generateResults model messages options cb ! i)) [0..<length messages]"
  using generateStart_with_manager [OF assms, of messages]
    notified_with_manager [of "firstRunId manager" "generateResults model messages options cb"]
  by (simp add: generate_unfold length_generateResults)

lemma filter_upt_eq: "j < n \<Longrightarrow> filter (\<lambda>i. i = j) [0..<n] = [j]"
proof (induction n)
  case 0
  then show ?case by simp
next
  case (Suc n)
  show ?case
  proof (cases "j < n")
    case True
    with Suc.IH show ?thesis by simp
  next
    case False
    with Suc.prems have "j = n" by simp
    moreover have "filter (\<lambda>i. i = n) [0..<n] = []"
      by (simp add: filter_empty_conv)
    ultimately show ?thesis by simp
  qed
qed

lemma closes_notification [simp]: "closes rid (notification rid' r) \<longleftrightarrow> rid' = rid"
  by (cases r) (simp_all add: notification_def)

lemma is_start_notification [simp]: "\<not> is_start (notification rid r)"
  by (cases r) (simp_all add: notification_def)

lemma filter_closes_log:
  assumes "j < n"
  shows "filter (closes (b + j))
           (map (\<lambda>i. ChatModelStart (b + i) (ms i) ex) [0..<n]
            @ map (\<lambda>i. notification (b + i) (rs i)) [0..<n])
         = [notification (b + j) (rs j)]"
proof -
  have "filter (closes (b + j)) (map (\<lambda>i. ChatModelStart (b + i) (ms i) ex) [0..<n]) = []"
    by (simp add: filter_empty_conv)
  moreover have "filter (closes (b + j)) (map (\<lambda>i. notification (b + i) (rs i)) [0..<n])
                   = map (\<lambda>i. notification (b + i) (rs i)) (filter (\<lambda>i. i = j) [0..<n])"
    by (simp add: filter_map comp_def)
  ultimately show ?thesis using assms by (simp add: filter_upt_eq)
qed

lemma filter_start_log:
  "filter is_start
           (map (\<lambda>i. ChatModelStart (b + i) (ms i) ex) [0..<n]
            @ map (\<lambda>i. notification (b + i) (rs i)) [0..<n])
         = map (\<lambda>i. ChatModelStart (b + i) (ms i) ex) [0..<n]"
  by (simp add: filter_empty_conv)

lemma filter_end_log:
  "filter is_end
           (map (\<lambda>i. ChatModelStart (b + i) (ms i) ex) [0..<n]
            @ map (\<lambda>i. LLMEnd (b + i) (ps i)) [0..<n])
         = map (\<lambda>i. LLMEnd (b + i) (ps i)) [0..<n]"
  by (simp add: filter_empty_conv)

lemma filter_error_log:
  "filter is_error
           (map (\<lambda>i. ChatModelStart (b + i) (ms i) ex) [0..<n]
            @ map (\<lambda>i. LLMEnd (b + i) (ps i)) [0..<n])
         = []"
  by (simp add: filter_empty_conv)

lemma distinct_run_ids: "distinct (map runId (map (\<lambda>i. \<lparr>runId = b + i\<rparr>) [0..<n]))"
  by (simp add: distinct_map comp_def inj_on_def)

text \<open>
  C1, as stated, fails: a call for which \<^verbatim>\<open>CallbackManager.configure\<close> yields no
  manager succeeds and nothing is notified (\<^verbatim>\<open>callbackManager_?.\<close>,
  \<^verbatim>\<open>runManagers?.[i]?.\<close>).
\<close>

theorem generate_without_manager_counterexample:
  "generate (probe_model None) [[\<lparr>role = HumanRole, content = ''hi''\<rparr>]] None None
     = (Inr \<lparr>lr_generations = [[probe_answer emptyCallOptions]], lr_llmOutput = None,
             runIds = None\<rparr>,
        [])
   \<and> length [[\<lparr>role = HumanRole, content = ''hi''\<rparr>]] = 1"
  by (simp add: probe_unfold)

text \<open>
  C1, amended.  A successful \<^verbatim>\<open>generate\<close> over \<open>N\<close> message-lists for which a
  callback manager is configured: there are \<open>N\<close> handles with distinct run identifiers,
  one start notification per message-list, and exactly \<open>N\<close> end notifications, the
  \<open>i\<close>-th delivered to the handle at index \<open>i\<close> with the result of message-list
  \<open>i\<close>; there is no error notification, nothing else is notified, and each handle
  receives exactly one closing notification.
\<close>

theorem generate_success_notifies_each_list_once:
  assumes "generateCallbackManager model options cb = Some manager"
    and "generate model messages options cb = (Inr result, evs)"
  shows "\<exists>handles chatResults.
           fst (generateStart model messages options cb) = Some handles
         \<and> length handles = length messages
         \<and> distinct (map runId handles)
         \<and> runIds result = Some (map runId handles)
         \<and> generateResults model messages options cb = map Inr chatResults
         \<and> lr_generations result = map generations chatResults
         \<and> filter is_start evs
             = map (\<lambda>i. ChatModelStart (runId (handles ! i)) (messages ! i)
                          (generateExtra model options)) [0..<length messages]
         \<and> filter is_end evs
             = map (\<lambda>i. LLMEnd (runId (handles ! i)) (endPayload (chatResults ! i)))
                 [0..<length messages]
         \<and> length (filter is_start evs) = length messages
         \<and> length (filter is_end evs) = length messages
         \<and> filter is_error evs = []
         \<and> evs = filter is_start evs @ filter is_end evs
         \<and> (\<forall>i<length messages.
               filter (closes (runId (handles ! i))) evs
                 = [LLMEnd (runId (handles ! i)) (endPayload (chatResults ! i))])"
proof -
  let ?n = "length messages"
  let ?b = "firstRunId manager"
  let ?hs = "map (\<lambda>i. \<lparr>runId = ?b + i\<rparr>) [0..<?n]"
  let ?rs = "generateResults model messages options cb"
  have start: "generateStart model messages options cb
       = (Some ?hs, map (\<lambda>i. ChatModelStart (?b + i) (messages ! i)
                      (generateExtra model options)) [0..<?n])"
    by (rule generateStart_with_manager [OF assms(1)])
  from assms(2) obtain chatResults where
    pa: "promise_all ?rs = Inr chatResults"
    and res: "result =
       \<lparr>lr_generations = map generations chatResults,
        lr_llmOutput =
          (if chatResults \<noteq> []
           then (case combineLLMOutput model of
                   None \<Rightarrow> None
                 | Some combine \<Rightarrow> combine (map llmOutput chatResults))
           else None),
        runIds = map_option (map runId) (fst (generateStart model messages options cb))\<rparr>"
    by (auto simp: generate_unfold split: sum.splits)
  from pa have rs: "?rs = map Inr chatResults" by (rule promise_all_Inr_D)
  then have len: "length chatResults = ?n"
    using length_generateResults [of model messages options cb] by simp
  have ended: "notification (?b + i) (?rs ! i) = LLMEnd (?b + i) (endPayload (chatResults ! i))"
    if "i < ?n" for i
    using that len by (simp add: rs notification_def)
  have evs: "evs = map (\<lambda>i. ChatModelStart (?b + i) (messages ! i)
                      (generateExtra model options)) [0..<?n]
       @ map (\<lambda>i. LLMEnd (?b + i) (endPayload (chatResults ! i))) [0..<?n]"
    using snd_generate_with_manager [OF assms(1), of messages] assms(2) ended
    by simp
  have hs: "runId (?hs ! i) = ?b + i" if "i < ?n" for i
    using that by simp
  have m1: "map (\<lambda>i. ChatModelStart (runId (?hs ! i)) (messages ! i)
                          (generateExtra model options)) [0..<?n]
        = map (\<lambda>i. ChatModelStart (?b + i) (messages ! i)
                      (generateExtra model options)) [0..<?n]"
    using hs by simp
  have m2: "map (\<lambda>i. LLMEnd (runId (?hs ! i)) (endPayload (chatResults ! i))) [0..<?n]
        = map (\<lambda>i. LLMEnd (?b + i) (endPayload (chatResults ! i))) [0..<?n]"
    using hs by simp
  have closing: "filter (closes (runId (?hs ! i))) evs
                 = [LLMEnd (runId (?hs ! i)) (endPayload (chatResults ! i))]"
    if "i < ?n" for i
  proof -
    have "filter (closes (?b + i)) evs
            = [notification (?b + i) (Inr (chatResults ! i))]"
      using filter_closes_log [OF that, of ?b "\<lambda>i. messages ! i" "generateExtra model options"
          "\<lambda>i. Inr (chatResults ! i)"]
      by (simp add: evs notification_def)
    with that show ?thesis by (simp add: notification_def)
  qed
  have "fst (generateStart model messages options cb) = Some ?hs"
    by (simp add: start)
  moreover have "length ?hs = ?n" by simp
  moreover have "distinct (map runId ?hs)" by (rule distinct_run_ids)
  moreover have "runIds result = Some (map runId ?hs)" by (simp add: res start)
  moreover note rs
  moreover have "lr_generations result = map generations chatResults" by (simp add: res)
  moreover have "filter is_start evs
             = map (\<lambda>i. ChatModelStart (runId (?hs ! i)) (messages ! i)
                          (generateExtra model options)) [0..<?n]"
    unfolding m1 by (simp add: evs filter_empty_conv)
  moreover have "filter is_end evs
             = map (\<lambda>i. LLMEnd (runId (?hs ! i)) (endPayload (chatResults ! i))) [0..<?n]"
    unfolding m2 by (simp add: evs filter_empty_conv)
  moreover have "length (filter is_start evs) = ?n"
    by (simp add: evs filter_empty_conv)
  moreover have "length (filter is_end evs) = ?n"
    by (simp add: evs filter_empty_conv)
  moreover have "filter is_error evs = []"
    by (simp add: evs filter_empty_conv)
  moreover have "evs = filter is_start evs @ filter is_end evs"
    by (simp add: evs filter_empty_conv)
  moreover have "\<forall>i<?n. filter (closes (runId (?hs ! i))) evs
                 = [LLMEnd (runId (?hs ! i)) (endPayload (chatResults ! i))]"
    using closing by blast
  ultimately show ?thesis by blast
qed

theorem generate_success_notifies_each_list_once_witness:
  "generateCallbackManager (probe_model (Some \<lparr>firstRunId = 7\<rparr>)) None None
     = Some \<lparr>firstRunId = 7\<rparr>
   \<and> runIds (projr (fst (generate (probe_model (Some \<lparr>firstRunId = 7\<rparr>))
        [[\<lparr>role = HumanRole, content = ''hi''\<rparr>], [\<lparr>role = HumanRole, content = ''yo''\<rparr>]]
        None None))) = Some [7, 8]
   \<and> filter is_end (snd (generate (probe_model (Some \<lparr>firstRunId = 7\<rparr>))
        [[\<lparr>role = HumanRole, content = ''hi''\<rparr>], [\<lparr>role = HumanRole, content = ''yo''\<rparr>]]
        None None))
      = [LLMEnd 7 \<lparr>end_generations = [[Some (probe_answer emptyCallOptions)]], end_llmOutput = None\<rparr>,
         LLMEnd 8 \<lparr>end_generations = [[Some (probe_answer emptyCallOptions)]], end_llmOutput = None\<rparr>]
   \<and> length (filter is_start (snd (generate (probe_model (Some \<lparr>firstRunId = 7\<rparr>))
        [[\<lparr>role = HumanRole, content = ''hi''\<rparr>], [\<lparr>role = HumanRole, content = ''yo''\<rparr>]]
        None None))) = 2"
proof -
  have cm: "generateCallbackManager (probe_model (Some \<lparr>firstRunId = 7\<rparr>)) None None
     = Some \<lparr>firstRunId = 7\<rparr>"
    by (simp add: probe_unfold)
  show ?thesis
    using generate_success_notifies_each_list_once [OF cm probe_generate_two] cm
    by (simp add: probe_generate_two)
qed

text \<open>
  C2.  When the primitive fails for message-list \<open>i\<close> and succeeds for the others, every
  message-list has a settled result, \<^verbatim>\<open>generate\<close> fails with the reason of list
  \<open>i\<close>, and the run manager of every list receives exactly one closing notification:
  the error with that reason for list \<open>i\<close>, the end with the list's own result for
  each other list.
\<close>

theorem generate_one_failure_settles_all:
  assumes "i < length messages"
    and "generateResults model messages options cb ! i = Inl reason"
    and "\<forall>j<length messages. j \<noteq> i \<longrightarrow>
           (\<exists>r. generateResults model messages options cb ! j = Inr r)"
  shows "fst (generate model messages options cb) = Inl reason
       \<and> length (generateResults model messages options cb) = length messages
       \<and> (\<forall>j<length messages. \<forall>h.
             runManagerAt (fst (generateStart model messages options cb)) j = Some h \<longrightarrow>
               filter (closes (runId h)) (snd (generate model messages options cb))
                 = [if j = i then LLMError (runId h) reason
                    else LLMEnd (runId h)
                           (endPayload (projr (generateResults model messages options cb ! j)))])"
proof (intro conjI allI impI)
  let ?n = "length messages"
  let ?rs = "generateResults model messages options cb"
  show len: "length ?rs = ?n" by (rule length_generateResults)
  have "\<forall>j<i. \<exists>v. ?rs ! j = Inr v"
    using assms(1,3) by auto
  with assms(1,2) len have "promise_all ?rs = Inl reason"
    by (intro promise_all_first_rejection) simp_all
  then show "fst (generate model messages options cb) = Inl reason"
    by (simp add: generate_unfold)
  fix j h
  assume j: "j < ?n"
    and h: "runManagerAt (fst (generateStart model messages options cb)) j = Some h"
  show "filter (closes (runId h)) (snd (generate model messages options cb))
          = [if j = i then LLMError (runId h) reason
             else LLMEnd (runId h) (endPayload (projr (?rs ! j)))]"
  proof (cases "generateCallbackManager model options cb")
    case None
    with h show ?thesis
      by (simp add: generateStart_without_manager runManagerAt_def)
  next
    case (Some manager)
    let ?b = "firstRunId manager"
    from h j have rid: "runId h = ?b + j"
      by (auto simp: generateStart_with_manager [OF Some] runManagerAt_def at_index_def)
    have "filter (closes (?b + j)) (snd (generate model messages options cb))
            = [notification (?b + j) (?rs ! j)]"
      unfolding snd_generate_with_manager [OF Some]
      by (rule filter_closes_log [OF j])
    moreover have "notification (?b + j) (?rs ! j)
        = (if j = i then LLMError (?b + j) reason
           else LLMEnd (?b + j) (endPayload (projr (?rs ! j))))"
    proof (cases "j = i")
      case True
      with assms(2) show ?thesis by (simp add: notification_def)
    next
      case False
      with assms(3) j obtain r where "?rs ! j = Inr r" by blast
      with False show ?thesis by (simp add: notification_def)
    qed
    ultimately show ?thesis by (simp add: rid)
  qed
qed

theorem generate_one_failure_settles_all_witness:
  "(1::nat) < length [[\<lparr>role = HumanRole, content = ''hi''\<rparr>], [], [\<lparr>role = HumanRole, content = ''yo''\<rparr>]]
   \<and> generateResults (probe_model (Some \<lparr>firstRunId = 7\<rparr>))
        [[\<lparr>role = HumanRole, content = ''hi''\<rparr>], [], [\<lparr>role = HumanRole, content = ''yo''\<rparr>]]
        None None
      = [Inr \<lparr>generations = [probe_answer (emptyCallOptions\<lparr>promptIndex := Some 0\<rparr>)], llmOutput = None\<rparr>,
         Inl (Failure ''no messages''),
         Inr \<lparr>generations = [probe_answer (emptyCallOptions\<lparr>promptIndex := Some 2\<rparr>)], llmOutput = None\<rparr>]
   \<and> fst (generate (probe_model (Some \<lparr>firstRunId = 7\<rparr>))
        [[\<lparr>role = HumanRole, content = ''hi''\<rparr>], [], [\<lparr>role = HumanRole, content = ''yo''\<rparr>]]
        None None) = Inl (Failure ''no messages'')
   \<and> filter (closes 8) (snd (generate (probe_model (Some \<lparr>firstRunId = 7\<rparr>))
        [[\<lparr>role = HumanRole, content = ''hi''\<rparr>], [], [\<lparr>role = HumanRole, content = ''yo''\<rparr>]]
        None None)) = [LLMError 8 (Failure ''no messages'')]
   \<and> filter (closes 9) (snd (generate (probe_model (Some \<lparr>firstRunId = 7\<rparr>))
        [[\<lparr>role = HumanRole, content = ''hi''\<rparr>], [], [\<lparr>role = HumanRole, content = ''yo''\<rparr>]]
        None None))
       = [LLMEnd 9 \<lparr>end_generations = [[Some (probe_answer emptyCallOptions)]], end_llmOutput = None\<rparr>]"
proof -
  let ?ms = "[[\<lparr>role = HumanRole, content = ''hi''\<rparr>], [], [\<lparr>role = HumanRole, content = ''yo''\<rparr>]]"
  let ?m = "probe_model (Some \<lparr>firstRunId = 7\<rparr>)"
  have rs: "generateResults ?m ?ms None None
      = [Inr \<lparr>generations = [probe_answer (emptyCallOptions\<lparr>promptIndex := Some 0\<rparr>)], llmOutput = None\<rparr>,
         Inl (Failure ''no messages''),
         Inr \<lparr>generations = [probe_answer (emptyCallOptions\<lparr>promptIndex := Some 2\<rparr>)], llmOutput = None\<rparr>]"
    by (simp add: probe_unfold)
  have h1: "(1::nat) < length ?ms" by simp
  have h2: "generateResults ?m ?ms None None ! 1 = Inl (Failure ''no messages'')"
    by (simp add: rs)
  have h3: "\<forall>j<length ?ms. j \<noteq> 1 \<longrightarrow> (\<exists>r. generateResults ?m ?ms None None ! j = Inr r)"
    by (simp add: rs less_Suc_eq numeral_3_eq_3)
  show ?thesis
    using generate_one_failure_settles_all [OF h1 h2 h3] rs
    by (simp add: probe_generate_failing)
qed

lemma generateCalls_keep_signal:
  "(messageList, opts, runManager) \<in> set (generateCalls messages parsedOptions runManagers) \<Longrightarrow>
     signal opts = signal parsedOptions \<and> timeout opts = timeout parsedOptions"
  by (auto simp: generateCalls_def)

text \<open>
  C3.  With a timeout and no signal in the call options, the split options (reported to
  the callback manager) carry the signal derived from the timeout, but the primitive is
  called with \<^verbatim>\<open>{ ...parsedOptions, promptIndex: i }\<close>, the options before the
  split: it is given the timeout and no signal.
\<close>

theorem generate_primitive_gets_no_timeout_signal:
  "signal (snd (separateRunnableConfigFromCallOptions (emptyCallOptions\<lparr>timeout := Some 1000\<rparr>)))
     = Some (TimeoutSignal 1000)
   \<and> map (\<lambda>(messageList, opts, runManager). (timeout opts, signal opts))
       (generateCalls [[\<lparr>role = HumanRole, content = ''hi''\<rparr>]]
          (parseOptions (Some (Options (emptyCallOptions\<lparr>timeout := Some 1000\<rparr>)))) None)
     = [(Some 1000, None)]
   \<and> map (map gen_text)
       (lr_generations (projr (fst (generate (probe_model None)
          [[\<lparr>role = HumanRole, content = ''hi''\<rparr>]]
          (Some (Options (emptyCallOptions\<lparr>timeout := Some 1000\<rparr>))) None))))
     = [[''no signal'']]"
  by (simp add: probe_unfold)


text \<open>
  The streaming path, for comparison, hands the split options to the chunk producer: there
  the signal derived from the timeout arrives.
\<close>

lemma streamIterator_hands_split_options:
  "yielded (streamIterator (streaming_probe_model None) ''hi''
              (Some (emptyCallOptions\<lparr>timeout := Some 1000\<rparr>)))
     = [\<lparr>role = AIRole, content = ''signal''\<rparr>]"
  by (simp add: streamIterator_def streaming_probe_model_def probe_unfold)


section \<open>Properties of the vector store\<close>

lemma map_throwing_records:
  "n + length vectors \<le> length documents \<Longrightarrow>
     map_throwing
       (\<lambda>(idx, embedding).
          case at_index documents idx of
            None \<Rightarrow> Inl (TypeError msg)
          | Some doc \<Rightarrow> Inr (vectorRecord store embedding doc))
       (enumerate n vectors)
     = Inr (map (\<lambda>(embedding, doc). vectorRecord store embedding doc)
              (zip vectors (drop n documents)))"
proof (induction vectors arbitrary: n)
  case Nil
  then show ?case by simp
next
  case (Cons v vs)
  then have n: "n < length documents" and rest: "Suc n + length vs \<le> length documents"
    by simp_all
  from n have d: "drop n documents = documents ! n # drop (Suc n) documents"
    by (simp add: Cons_nth_drop_Suc)
  from Cons.IH [OF rest] n show ?case
    by (simp add: d at_index_def)
qed

lemma map_throwing_missing_document:
  "n \<le> length documents \<Longrightarrow> length documents < n + length vectors \<Longrightarrow>
     map_throwing
       (\<lambda>(idx, embedding).
          case at_index documents idx of
            None \<Rightarrow> Inl (TypeError msg)
          | Some doc \<Rightarrow> Inr (vectorRecord store embedding doc))
       (enumerate n vectors)
     = Inl (TypeError msg)"
proof (induction vectors arbitrary: n)
  case Nil
  then show ?case by simp
next
  case (Cons v vs)
  show ?case
  proof (cases "n < length documents")
    case True
    with Cons.prems have "Suc n \<le> length documents" "length documents < Suc n + length vs"
      by simp_all
    from Cons.IH [OF this] True show ?thesis by (simp add: at_index_def)
  next
    case False
    then show ?thesis by (simp add: at_index_def)
  qed
qed

text \<open>
  C8, as stated, fails: with one vector and two documents the call succeeds and stores a
  record.
\<close>

theorem addVectors_count_mismatch_counterexample:
  "length [[1 / 10, 2 / 10 :: real]]
     \<noteq> length [\<lparr>pageContent = ''first'', metadata = [(''a'', JNumber 1)]\<rparr>,
               \<lparr>pageContent = ''second'', metadata = []\<rparr>]
   \<and> addVectors empty_store [[1 / 10, 2 / 10]]
       [\<lparr>pageContent = ''first'', metadata = [(''a'', JNumber 1)]\<rparr>,
        \<lparr>pageContent = ''second'', metadata = []\<rparr>]
     = (Inr (),
        empty_store\<lparr>collection :=
          [[(''text'', JString ''first''),
            (''embedding'', JArray [JNumber (1 / 10), JNumber (2 / 10)]),
            (''a'', JNumber 1)]]\<rparr>)"
  by (simp add: addVectors_def empty_store_def at_index_def vectorRecord_def spread_def
      insertMany_def)

text \<open>
  C8, amended.  \<^verbatim>\<open>addVectors\<close> stores one record per vector, made of the vector and the
  document at the same index.  With more vectors than documents it fails with a
  TypeError and stores nothing; otherwise it succeeds, and with equal counts it stores
  exactly one record per (vector, document) pair (documents beyond the vectors are not
  stored).
\<close>

theorem addVectors_one_record_per_vector:
  "(length documents < length vectors \<longrightarrow>
      addVectors store vectors documents
        = (Inl (TypeError ''Cannot read properties of undefined''), store))
   \<and> (length vectors \<le> length documents \<longrightarrow>
        addVectors store vectors documents
          = (Inr (),
             store\<lparr>collection :=
                     collection store @
                     map (\<lambda>(embedding, doc). vectorRecord store embedding doc)
                       (zip vectors documents)\<rparr>))
   \<and> (length vectors = length documents \<longrightarrow>
        length (collection (snd (addVectors store vectors documents)))
          = length (collection store) + length vectors)"
proof (intro conjI impI)
  assume "length documents < length vectors"
  then show "addVectors store vectors documents
        = (Inl (TypeError ''Cannot read properties of undefined''), store)"
    using map_throwing_missing_document [where n = 0 and documents = documents and vectors = vectors]
    by (simp add: addVectors_def)
next
  assume le: "length vectors \<le> length documents"
  then show eq: "addVectors store vectors documents
          = (Inr (),
             store\<lparr>collection :=
                     collection store @
                     map (\<lambda>(embedding, doc). vectorRecord store embedding doc)
                       (zip vectors documents)\<rparr>)"
    using map_throwing_records [where n = 0 and documents = documents and vectors = vectors]
    by (simp add: addVectors_def insertMany_def)
next
  assume "length vectors = length documents"
  then show "length (collection (snd (addVectors store vectors documents)))
          = length (collection store) + length vectors"
    using map_throwing_records [where n = 0 and documents = documents and vectors = vectors]
    by (simp add: addVectors_def insertMany_def)
qed

theorem addVectors_one_record_per_vector_witness:
  "length [[1 / 10, 2 / 10 :: real]]
     = length [\<lparr>pageContent = ''first'', metadata = [(''a'', JNumber 1)]\<rparr>]
   \<and> addVectors empty_store [[1 / 10, 2 / 10]]
       [\<lparr>pageContent = ''first'', metadata = [(''a'', JNumber 1)]\<rparr>]
     = (Inr (),
        empty_store\<lparr>collection :=
          [[(''text'', JString ''first''),
            (''embedding'', JArray [JNumber (1 / 10), JNumber (2 / 10)]),
            (''a'', JNumber 1)]]\<rparr>)
   \<and> addVectors empty_store [[1 / 10, 2 / 10], [3]]
       [\<lparr>pageContent = ''first'', metadata = [(''a'', JNumber 1)]\<rparr>]
     = (Inl (TypeError ''Cannot read properties of undefined''), empty_store)"
  using addVectors_one_record_per_vector
      [of "[\<lparr>pageContent = ''first'', metadata = [(''a'', JNumber 1)]\<rparr>]"
          "[[1 / 10, 2 / 10]]" empty_store]
    addVectors_one_record_per_vector
      [of "[\<lparr>pageContent = ''first'', metadata = [(''a'', JNumber 1)]\<rparr>]"
          "[[1 / 10, 2 / 10], [3]]" empty_store]
  by (simp add: vectorRecord_def spread_def empty_store_def)

lemma spread_absent: "k \<notin> fst ` set source \<Longrightarrow> map_of (spread target source) k = map_of target k"
  unfolding spread_def
  by (induction source arbitrary: target) (auto simp: update_conv')

lemma spread_overrides:
  "distinct (map fst source) \<Longrightarrow> map_of source k = Some v \<Longrightarrow>
     map_of (spread target source) k = Some v"
proof (induction source arbitrary: target)
  case Nil
  then show ?case by simp
next
  case (Cons p source)
  obtain k' v' where p: "p = (k', v')" by (cases p)
  show ?case
  proof (cases "k' = k")
    case True
    with Cons.prems p have "v' = v" and "k \<notin> fst ` set source" by auto
    then have "map_of (spread (AList.update k v target) source) k
                 = map_of (AList.update k v target) k"
      by (intro spread_absent)
    with True p \<open>v' = v\<close> show ?thesis
      by (simp add: spread_def update_conv')
  next
    case False
    with Cons.prems p have "distinct (map fst source)" "map_of source k = Some v" by auto
    from Cons.IH [OF this] p show ?thesis by (simp add: spread_def)
  qed
qed

text \<open>
  C10.  A key of a document's metadata (an object: its keys are distinct) has the
  metadata's value in the stored record; so for the text key and for the embedding key
  the metadata overrides the page content and the vector.
\<close>

theorem addVectors_metadata_overrides:
  assumes "idx < length vectors" and "length vectors \<le> length documents"
    and "distinct (map fst (metadata (documents ! idx)))"
    and "map_of (metadata (documents ! idx)) k = Some v"
  shows "fst (addVectors store vectors documents) = Inr ()
       \<and> map_of (collection (snd (addVectors store vectors documents))
                  ! (length (collection store) + idx)) k = Some v"
proof -
  from assms(2) have eq: "addVectors store vectors documents
          = (Inr (),
             store\<lparr>collection :=
                     collection store @
                     map (\<lambda>(embedding, doc). vectorRecord store embedding doc)
                       (zip vectors documents)\<rparr>)"
    using map_throwing_records [where n = 0 and documents = documents and vectors = vectors]
    by (simp add: addVectors_def insertMany_def)
  from assms(1,2) have "(collection store @
                     map (\<lambda>(embedding, doc). vectorRecord store embedding doc)
                       (zip vectors documents)) ! (length (collection store) + idx)
     = vectorRecord store (vectors ! idx) (documents ! idx)"
    by (simp add: nth_append)
  moreover have "map_of (vectorRecord store (vectors ! idx) (documents ! idx)) k = Some v"
    unfolding vectorRecord_def by (rule spread_overrides [OF assms(3,4)])
  ultimately show ?thesis by (simp add: eq)
qed

theorem addVectors_metadata_overrides_witness:
  "(0::nat) < length [[1 / 10, 2 / 10 :: real]]
   \<and> distinct (map fst [(''text'', JString ''from metadata''), (''embedding'', JNull)])
   \<and> map_of [(''text'', JString ''from metadata''), (''embedding'', JNull)] ''text''
       = Some (JString ''from metadata'')
   \<and> collection (snd (addVectors empty_store [[1 / 10, 2 / 10]]
       [\<lparr>pageContent = ''page content'',
         metadata = [(''text'', JString ''from metadata''), (''embedding'', JNull)]\<rparr>]))
     = [[(''text'', JString ''from metadata''), (''embedding'', JNull)]]"
proof -
  let ?d = "\<lparr>pageContent = ''page content'',
         metadata = [(''text'', JString ''from metadata''), (''embedding'', JNull)]\<rparr>"
  have h1: "(0::nat) < length [[1 / 10, 2 / 10 :: real]]" by simp
  have h2: "length [[1 / 10, 2 / 10 :: real]] \<le> length [?d]" by simp
  have h3: "distinct (map fst (metadata ([?d] ! 0)))" by simp
  have h4: "map_of (metadata ([?d] ! 0)) ''text'' = Some (JString ''from metadata'')" by simp
  show ?thesis
    using addVectors_metadata_overrides [OF h1 h2 h3 h4, of empty_store]
    by (simp add: addVectors_def empty_store_def at_index_def vectorRecord_def spread_def
        insertMany_def)
qed

lemma is_document_truthy: "is_document v \<Longrightarrow> truthy v"
  by (cases v) (simp_all add: is_document_def)

text \<open>
  C9.  For a filter of the declared type: when it has a \<^verbatim>\<open>preFilter\<close> or a
  \<^verbatim>\<open>postFilterPipeline\<close> field, the pipeline is built from those two fields only (the
  pre-filter is the filter of the kNN request, the stages of the post-filter pipeline
  follow the projection); otherwise the whole filter object is the filter of the kNN
  request.
\<close>

theorem search_uses_declared_filter_fields:
  assumes "well_typed_filter flt"
  shows "(map_of flt ''preFilter'' \<noteq> None \<or> map_of flt ''postFilterPipeline'' \<noteq> None \<longrightarrow>
           searchPipeline store query k (Some flt)
             = Inr (searchStages store query k (map_of flt ''preFilter'')
                      (case map_of flt ''postFilterPipeline'' of
                         Some (JArray stages) \<Rightarrow> stages
                       | _ \<Rightarrow> [])))
       \<and> (map_of flt ''preFilter'' = None \<and> map_of flt ''postFilterPipeline'' = None \<longrightarrow>
           searchPipeline store query k (Some flt)
             = Inr (searchStages store query k (Some (JObject flt)) []))"
proof (intro conjI impI)
  assume "map_of flt ''preFilter'' = None \<and> map_of flt ''postFilterPipeline'' = None"
  then show "searchPipeline store query k (Some flt)
             = Inr (searchStages store query k (Some (JObject flt)) [])"
    by (simp add: searchPipeline_def searchStages_def property_def truthy_opt_def)
next
  assume some: "map_of flt ''preFilter'' \<noteq> None \<or> map_of flt ''postFilterPipeline'' \<noteq> None"
  have pre: "truthy_opt (map_of flt ''preFilter'') \<longleftrightarrow> map_of flt ''preFilter'' \<noteq> None"
    using assms
    by (auto simp: well_typed_filter_def truthy_opt_def is_document_truthy split: option.splits)
  have post: "truthy_opt (map_of flt ''postFilterPipeline'') \<longleftrightarrow>
                map_of flt ''postFilterPipeline'' \<noteq> None"
    using assms
    by (auto simp: well_typed_filter_def truthy_opt_def split: option.splits json.splits)
  have arr: "map_of flt ''postFilterPipeline'' = Some p \<Longrightarrow> \<exists>stages. p = JArray stages" for p
    using assms by (auto simp: well_typed_filter_def split: option.splits json.splits)
  show "searchPipeline store query k (Some flt)
             = Inr (searchStages store query k (map_of flt ''preFilter'')
                      (case map_of flt ''postFilterPipeline'' of
                         Some (JArray stages) \<Rightarrow> stages
                       | _ \<Rightarrow> []))"
  proof (cases "map_of flt ''postFilterPipeline''")
    case None
    with some pre post assms show ?thesis
      by (cases "map_of flt ''preFilter''")
        (auto simp: searchPipeline_def searchStages_def property_def well_typed_filter_def
          is_document_truthy)
  next
    case (Some p)
    with arr obtain stages where p: "p = JArray stages" by blast
    with Some pre post assms show ?thesis
      by (cases "map_of flt ''preFilter''")
        (auto simp: searchPipeline_def searchStages_def property_def well_typed_filter_def
          is_document_truthy)
  qed
qed

theorem search_uses_declared_filter_fields_witness:
  "well_typed_filter
     [(''preFilter'', JObject [(''a'', JNumber 1)]),
      (''postFilterPipeline'', JArray [JObject [(''$limit'', JNumber 1)]]),
      (''other'', JNumber 5)]
   \<and> searchPipeline empty_store [1, 2] 3
       (Some [(''preFilter'', JObject [(''a'', JNumber 1)]),
              (''postFilterPipeline'', JArray [JObject [(''$limit'', JNumber 1)]]),
              (''other'', JNumber 5)])
     = Inr (searchStages empty_store [1, 2] 3 (Some (JObject [(''a'', JNumber 1)]))
              [JObject [(''$limit'', JNumber 1)]])
   \<and> well_typed_filter [(''other'', JNumber 5)]
   \<and> searchPipeline empty_store [1, 2] 3 (Some [(''other'', JNumber 5)])
     = Inr (searchStages empty_store [1, 2] 3 (Some (JObject [(''other'', JNumber 5)])) [])"
proof -
  have w1: "well_typed_filter
     [(''preFilter'', JObject [(''a'', JNumber 1)]),
      (''postFilterPipeline'', JArray [JObject [(''$limit'', JNumber 1)]]),
      (''other'', JNumber 5)]"
    by (simp add: well_typed_filter_def is_document_def)
  have w2: "well_typed_filter [(''other'', JNumber 5)]"
    by (simp add: well_typed_filter_def)
  show ?thesis
    using search_uses_declared_filter_fields [OF w1, of empty_store "[1, 2]" 3]
      search_uses_declared_filter_fields [OF w2, of empty_store "[1, 2]" 3] w1 w2
    by simp
qed

end
